theory Spec2Isabelle
  imports Main
begin

section \<open>Hex strings and the byte helpers the plugins import\<close>

text \<open>
  A \<^verbatim>\<open>Hex\<close> value \<^verbatim>\<open>0x<digits>\<close> is represented by its digit string:
  \<^verbatim>\<open>"0x"\<close> is the empty list, an address has 40 digits, a 32-byte word 64.
  The characters are kept as they are, so that \<^verbatim>\<open>toLowerCase\<close> has
  something to do on a checksummed address.
\<close>

type_synonym hex = string

text \<open>
  Every \<^verbatim>\<open>throw\<close> and every rejected promise the two plugins can produce.
  \<^item> \<open>UnsupportedEntryPoint\<close>: \<^verbatim>\<open>Error("Only EntryPoint 0.6 is supported")\<close>
  \<^item> \<open>KernelAccountAddressNotProvided\<close>: \<^verbatim>\<open>Error("Kernel account address not provided")\<close>
  \<^item> \<open>NoMatchingPermission\<close>:
    \<^verbatim>\<open>Error("SessionKeyValidator: No matching permission found for the userOp")\<close>
  \<^item> \<open>SizeExceedsPaddingSizeError\<close>, \<open>IntegerOutOfRangeError\<close>: thrown by
    \<^verbatim>\<open>pad\<close> and \<^verbatim>\<open>toHex\<close>
  \<^item> \<open>TransportError\<close>: a \<^verbatim>\<open>readContract\<close> or \<^verbatim>\<open>getChainId\<close> call rejected
  \<^item> \<open>SignerError\<close>: the signing capability rejected
  \<^item> \<open>HelperError\<close>: a helper of \<^verbatim>\<open>utils.js\<close> or the ABI codec threw
\<close>

datatype error =
    UnsupportedEntryPoint
  | KernelAccountAddressNotProvided
  | NoMatchingPermission
  | SizeExceedsPaddingSizeError
  | IntegerOutOfRangeError
  | TransportError
  | SignerError
  | HelperError

text \<open>Sequencing of fallible steps: the first \<^verbatim>\<open>throw\<close> ends the computation.\<close>

definition andThen :: "error + 'a \<Rightarrow> ('a \<Rightarrow> error + 'b) \<Rightarrow> error + 'b" where
  "andThen m f = (case m of Inl e \<Rightarrow> Inl e | Inr v \<Rightarrow> f v)"

definition orThrow :: "'a option \<Rightarrow> error \<Rightarrow> error + 'a" where
  "orThrow m e = (case m of None \<Rightarrow> Inl e | Some v \<Rightarrow> Inr v)"

text \<open>
  \<^verbatim>\<open>pad(hex, { size })\<close> on a hex string: left-pads the digits with \<^verbatim>\<open>0\<close> to
  \<^verbatim>\<open>size * 2\<close> digits and throws when there are more digits than that.
\<close>

definition pad :: "hex \<Rightarrow> nat \<Rightarrow> error + hex" where
  "pad h sz =
     (if length h > sz * 2 then Inl SizeExceedsPaddingSizeError
      else Inr (replicate (sz * 2 - length h) CHR ''0'' @ h))"

definition hexDigit :: "nat \<Rightarrow> char" where
  "hexDigit d =
     (if d = 0 then CHR ''0'' else if d = 1 then CHR ''1'' else if d = 2 then CHR ''2''
      else if d = 3 then CHR ''3'' else if d = 4 then CHR ''4'' else if d = 5 then CHR ''5''
      else if d = 6 then CHR ''6'' else if d = 7 then CHR ''7'' else if d = 8 then CHR ''8''
      else if d = 9 then CHR ''9'' else if d = 10 then CHR ''a'' else if d = 11 then CHR ''b''
      else if d = 12 then CHR ''c'' else if d = 13 then CHR ''d'' else if d = 14 then CHR ''e''
      else CHR ''f'')"

text \<open>\<^verbatim>\<open>value.toString(16)\<close> of a non-negative integer: no leading zeros, \<^verbatim>\<open>"0"\<close> for 0.\<close>

fun toString16 :: "nat \<Rightarrow> string" where
  "toString16 n =
     (if n < 16 then [hexDigit n] else toString16 (n div 16) @ [hexDigit (n mod 16)])"

declare toString16.simps [simp del]

text \<open>
  \<^verbatim>\<open>toHex(value)\<close> without a size. On a \<^verbatim>\<open>number\<close> (the validity bounds) the
  value must lie in \<open>0 .. Number.MAX_SAFE_INTEGER\<close>; on a \<^verbatim>\<open>bigint\<close> (the
  nonces) it must not be negative. Only integral numbers are modelled.
\<close>

definition MAX_SAFE_INTEGER :: int where
  "MAX_SAFE_INTEGER = 2 ^ 53 - 1"

definition toHex_number :: "int \<Rightarrow> error + hex" where
  "toHex_number v =
     (if v > MAX_SAFE_INTEGER \<or> v < 0 then Inl IntegerOutOfRangeError
      else Inr (toString16 (nat v)))"

definition toHex_bigint :: "int \<Rightarrow> error + hex" where
  "toHex_bigint v =
     (if v < 0 then Inl IntegerOutOfRangeError else Inr (toString16 (nat v)))"

text \<open>\<^verbatim>\<open>concat\<close> / \<^verbatim>\<open>concatHex\<close> of hex strings joins the digits.\<close>

definition concatHex :: "hex list \<Rightarrow> hex" where
  "concatHex vs = foldl (\<lambda>acc x. acc @ x) [] vs"

text \<open>\<^verbatim>\<open>String.prototype.toLowerCase\<close> on the ASCII letters.\<close>

definition toLowerCase_char :: "char \<Rightarrow> char" where
  "toLowerCase_char c =
     (let n = (of_char c :: nat) in if 65 \<le> n \<and> n \<le> 90 then char_of (n + 32) else c)"

definition toLowerCase :: "string \<Rightarrow> string" where
  "toLowerCase s = map toLowerCase_char s"

definition zeroAddress :: hex where
  "zeroAddress = replicate 40 CHR ''0''"

section \<open>The commitment tree\<close>

text \<open>
  Modelled from the spec: the commitment-tree builder is the class \<^verbatim>\<open>MerkleTree\<close> of the
  package \<^verbatim>\<open>merkletreejs\<close>, which the plugin imports and which is not under
  \<^verbatim>\<open>src/\<close>. Section 4.2 of the design text gives its algorithm: hash each input when
  \<^verbatim>\<open>hashLeaves\<close> is set; at each level pair adjacent nodes in their order and sort
  the pair before hashing when \<^verbatim>\<open>sortPairs\<close> is set; an odd node at a level is
  promoted unchanged; the root is the single node of the last level; a proof is the
  sequence of sibling nodes on the way up, and walking a proof from a leaf hash
  recomputes the root. Nodes are buffers, represented by their hex digits; the
  package looks a leaf up by content (the last position that holds it) and returns the
  empty proof for a value that is not a leaf. The option \<^verbatim>\<open>complete\<close> changes how a level
  of several nodes is laid out; the plugin passes it with the single placeholder leaf
  only, where no level is built, and the model does not interpret it.
\<close>

fun Buffer_compare :: "hex \<Rightarrow> hex \<Rightarrow> int" where
  "Buffer_compare [] [] = 0"
| "Buffer_compare [] (y # ys) = - 1"
| "Buffer_compare (x # xs) [] = 1"
| "Buffer_compare (x # xs) (y # ys) =
     (if (of_char x :: nat) < of_char y then - 1
      else if (of_char y :: nat) < of_char x then 1
      else Buffer_compare xs ys)"

record options =
  sortPairs :: bool
  hashLeaves :: bool
  complete :: bool

definition hashPair :: "(hex \<Rightarrow> hex) \<Rightarrow> bool \<Rightarrow> hex \<Rightarrow> hex \<Rightarrow> hex" where
  "hashPair hashFn sorted_pairs left right =
     hashFn (if sorted_pairs \<and> Buffer_compare left right > 0 then right @ left
             else left @ right)"

fun nextLayer :: "(hex \<Rightarrow> hex) \<Rightarrow> bool \<Rightarrow> hex list \<Rightarrow> hex list" where
  "nextLayer hashFn sp (left # right # rest) =
     hashPair hashFn sp left right # nextLayer hashFn sp rest"
| "nextLayer hashFn sp [odd_node] = [odd_node]"
| "nextLayer hashFn sp [] = []"

lemma length_nextLayer: "length (nextLayer hashFn sp nodes) = (length nodes + 1) div 2"
  by (induction hashFn sp nodes rule: nextLayer.induct) simp_all

function createHashes :: "(hex \<Rightarrow> hex) \<Rightarrow> bool \<Rightarrow> hex list \<Rightarrow> hex list list" where
  "createHashes hashFn sp nodes =
     (if length nodes > 1 then nodes # createHashes hashFn sp (nextLayer hashFn sp nodes)
      else [nodes])"
  by pat_completeness auto
termination
  by (relation "measure (\<lambda>(hashFn, sp, nodes). length nodes)")
     (auto simp: length_nextLayer)

declare createHashes.simps [simp del]

record merkleTree =
  leaves :: "hex list"
  layers :: "hex list list"

definition MerkleTree :: "hex list \<Rightarrow> (hex \<Rightarrow> hex) \<Rightarrow> options \<Rightarrow> merkleTree" where
  "MerkleTree inputs hashFn opts =
     (let ls = (if hashLeaves opts then map hashFn inputs else inputs)
      in \<lparr>leaves = ls, layers = createHashes hashFn (sortPairs opts) ls\<rparr>)"

definition getHexRoot :: "merkleTree \<Rightarrow> hex" where
  "getHexRoot t =
     (case rev (layers t) of
        [] \<Rightarrow> []
      | lastLayer # _ \<Rightarrow> (case lastLayer of [] \<Rightarrow> [] | node # _ \<Rightarrow> node))"

fun findLeafIndex :: "hex \<Rightarrow> hex list \<Rightarrow> nat \<Rightarrow> nat option \<Rightarrow> nat option" where
  "findLeafIndex leaf [] i index = index"
| "findLeafIndex leaf (l # ls) i index =
     findLeafIndex leaf ls (Suc i) (if Buffer_compare leaf l = 0 then Some i else index)"

fun proofSteps :: "nat \<Rightarrow> hex list list \<Rightarrow> hex list" where
  "proofSteps index [] = []"
| "proofSteps index (layer # rest) =
     (let pairIndex = (if index mod 2 = 1 then index - 1 else index + 1)
      in (if pairIndex < length layer then [layer ! pairIndex] else [])
         @ proofSteps (index div 2) rest)"

definition getHexProof :: "merkleTree \<Rightarrow> hex \<Rightarrow> hex list" where
  "getHexProof t leaf =
     (case findLeafIndex leaf (leaves t) 0 None of
        None \<Rightarrow> []
      | Some index \<Rightarrow> proofSteps index (layers t))"

text \<open>
  Walking a proof from a leaf hash, as the verifier of a sorted-pair tree does: at each
  step the smaller of the running hash and the sibling goes first.
\<close>

fun walkProof :: "(hex \<Rightarrow> hex) \<Rightarrow> hex \<Rightarrow> hex list \<Rightarrow> hex" where
  "walkProof hashFn h [] = h"
| "walkProof hashFn h (sibling # rest) =
     walkProof hashFn
       (if Buffer_compare h sibling < 0 then hashFn (h @ sibling) else hashFn (sibling @ h))
       rest"

definition verify :: "(hex \<Rightarrow> hex) \<Rightarrow> hex list \<Rightarrow> hex \<Rightarrow> hex \<Rightarrow> bool" where
  "verify hashFn proof_nodes targetNode rootNode =
     (Buffer_compare (walkProof hashFn targetNode proof_nodes) rootNode = 0)"

section \<open>External collaborators\<close>

text \<open>
  A call of \<^verbatim>\<open>readContract\<close>: the contract address, the function name and the
  arguments. An asynchronous operation returns its result together with the reads it
  performed, in order.
\<close>

datatype read = ReadContract hex string "hex list"

type_synonym 'a io = "(error + 'a) \<times> read list"

definition io_pure :: "error + 'a \<Rightarrow> 'a io" where
  "io_pure r = (r, [])"

definition io_bind :: "'a io \<Rightarrow> ('a \<Rightarrow> 'b io) \<Rightarrow> 'b io" where
  "io_bind m f =
     (case m of
        (Inl e, t) \<Rightarrow> (Inl e, t)
      | (Inr v, t) \<Rightarrow> (case f v of (r, t') \<Rightarrow> (r, t @ t')))"

text \<open>\<^verbatim>\<open>try { ... } catch (error) { return false }\<close>\<close>

definition try_catch_false :: "bool io \<Rightarrow> bool io" where
  "try_catch_false body =
     (case body of (Inl e, t) \<Rightarrow> (Inr False, t) | (Inr b, t) \<Rightarrow> (Inr b, t))"

record Signer =
  address :: hex

record ExecutionDetail =
  executor :: hex
  validator :: hex

text \<open>
  The chain and the signing capability, as functions of the arguments of the calls the
  plugins make; \<open>None\<close> is a rejected promise. \<open>nonces\<close>, \<open>sessionData\<close> and
  \<open>permissions\<close> take the validator contract's address first. The component of a
  \<open>permissions\<close> entry at position 3 is the only one the plugin reads.
\<close>

record client =
  getChainId :: "int option"
  toSigner :: "Signer \<Rightarrow> Signer option"
  signMessage :: "hex \<Rightarrow> hex \<Rightarrow> hex option"
  nonces :: "hex \<Rightarrow> hex \<Rightarrow> (int \<times> int) option"
  getExecution :: "hex \<Rightarrow> hex \<Rightarrow> ExecutionDetail option"
  sessionData :: "hex \<Rightarrow> hex \<Rightarrow> hex \<Rightarrow> (hex \<times> int \<times> int \<times> hex \<times> int) option"
  permissions_entry :: "hex \<Rightarrow> hex \<Rightarrow> hex \<Rightarrow> (int \<times> hex \<times> hex \<times> hex) option"

definition readContract :: "'a option \<Rightarrow> hex \<Rightarrow> string \<Rightarrow> hex list \<Rightarrow> 'a io" where
  "readContract answer addr functionName args =
     (orThrow answer TransportError, [ReadContract addr functionName args])"

section \<open>The session-key validator plugin\<close>

datatype Operation = Call | DelegateCall

datatype ParamOperator =
  EQUAL | GREATER_THAN | LESS_THAN | GREATER_THAN_OR_EQUAL | LESS_THAN_OR_EQUAL | NOT_EQUAL

definition anyPaymaster :: hex where
  "anyPaymaster = replicate 39 CHR ''0'' @ ''1''"

record ExecutionRule =
  ruleValidAfter :: int
  interval :: int
  runs :: int

text \<open>
  A permission, with the optional fields the constructor fills. \<open>others\<close> stands for
  the fields the constructor only copies (target, abi, functionName, args).
\<close>

record ('r, 'x) Permission =
  valueLimit :: "int option"
  sig :: "hex option"
  rules :: "'r list option"
  index :: "nat option"
  executionRule :: "ExecutionRule option"
  operation :: "Operation option"
  others :: 'x

record ('r, 'x) SessionKeyData =
  validAfter :: "int option"
  validUntil :: "int option"
  paymaster :: "hex option"
  permissions :: "('r, 'x) Permission list option"

text \<open>
  What \<^verbatim>\<open>findMatchingPermissions\<close> returns when it is not \<^verbatim>\<open>undefined\<close>: one
  permission, or an array of permissions (a batch). A Merkle proof argument is an array
  of strings or an array of arrays of strings.
\<close>

datatype 'p matched = One 'p | Batch "'p list"

datatype proofItem = Str hex | Arr "hex list"

record UserOperation =
  callData :: hex
  signature :: hex

record EntryPoint =
  entryPointAddress :: hex
  version :: string

text \<open>
  The helpers of \<^verbatim>\<open>./utils.js\<close>, \<^verbatim>\<open>./index.js\<close> and the SDK, and the hash
  functions, none of which is under \<^verbatim>\<open>src/\<close>: they are parameters. A helper that
  can throw returns \<open>None\<close> when it does.
\<close>

record ('r, 'x, 'u) utils =
  keccak256 :: "hex \<Rightarrow> hex"
  encodePermissionData :: "('r, 'x) Permission matched \<Rightarrow> proofItem list option \<Rightarrow> hex"
  findMatchingPermissions ::
    "hex \<Rightarrow> ('r, 'x) Permission list option \<Rightarrow> ('r, 'x) Permission matched option"
  getPermissionFromABI :: "'x \<Rightarrow> (hex option \<times> 'r list option) option"
  fixSignedData :: "hex \<Rightarrow> hex option"
  getUserOperationHash :: "'u UserOperation_scheme \<Rightarrow> EntryPoint \<Rightarrow> int \<Rightarrow> hex"
  DUMMY_ECDSA_SIG :: hex
  SESSION_KEY_VALIDATOR_ADDRESS :: hex

record ('r, 'x) SessionKeyPlugin =
  sessionKeyData :: "('r, 'x) SessionKeyData"
  signer :: Signer
  viemSigner :: Signer
  chainId :: int
  merkleTree :: merkleTree
  validatorAddress :: hex
  entryPoint :: EntryPoint

record ('r, 'x) SessionKeyArgs =
  arg_signer :: Signer
  arg_entryPoint :: EntryPoint
  arg_validatorData :: "('r, 'x) SessionKeyData option"
  arg_validatorAddress :: "hex option"

fun mapThrow :: "('a \<Rightarrow> error + 'b) \<Rightarrow> 'a list \<Rightarrow> error + 'b list" where
  "mapThrow f [] = Inr []"
| "mapThrow f (x # xs) =
     andThen (f x) (\<lambda>y. andThen (mapThrow f xs) (\<lambda>ys. Inr (y # ys)))"

text \<open>Lines 96 to 113: one permission with its defaults filled and its index stamped.\<close>

definition fillPermission ::
  "(hex option \<times> 'r list option) list \<Rightarrow> nat \<times> ('r, 'x) Permission
     \<Rightarrow> error + ('r, 'x) Permission" where
  "fillPermission generatedPermissionParams ip =
     (case ip of (i, perm) \<Rightarrow>
        (let generated =
               (if i < length generatedPermissionParams
                then Some (generatedPermissionParams ! i) else None)
         in andThen
              (case sig perm of
                 Some s \<Rightarrow> Inr s
               | None \<Rightarrow>
                   (case generated of
                      Some (Some s, _) \<Rightarrow> Inr s
                    | _ \<Rightarrow> pad [] 4))
              (\<lambda>s. Inr (perm
                 \<lparr> valueLimit := Some (case valueLimit perm of Some v \<Rightarrow> v | None \<Rightarrow> 0),
                   sig := Some s,
                   rules :=
                     Some (case rules perm of
                             Some rs \<Rightarrow> rs
                           | None \<Rightarrow>
                               (case generated of Some (_, Some rs) \<Rightarrow> rs | _ \<Rightarrow> [])),
                   index := Some i,
                   executionRule :=
                     Some (case executionRule perm of
                             Some er \<Rightarrow> er
                           | None \<Rightarrow> \<lparr>ruleValidAfter = 0, interval = 0, runs = 0\<rparr>),
                   operation :=
                     Some (case operation perm of Some ope \<Rightarrow> ope | None \<Rightarrow> Call) \<rparr>))))"

text \<open>Lines 140 to 145: the encoded leaves, a single one duplicated.\<close>

definition encodedPermissionData ::
  "('r, 'x, 'u) utils \<Rightarrow> ('r, 'x) Permission list \<Rightarrow> hex list" where
  "encodedPermissionData u perms =
     (let encoded = map (\<lambda>permission. encodePermissionData u (One permission) None) perms
      in if length encoded \<noteq> 0 \<and> length encoded = 1 then encoded @ [encoded ! 0]
         else encoded)"

text \<open>Lines 147 to 155: the tree over the hashed leaves, or over the unhashed placeholder.\<close>

definition buildMerkleTree ::
  "('r, 'x, 'u) utils \<Rightarrow> ('r, 'x) Permission list option \<Rightarrow> error + merkleTree" where
  "buildMerkleTree u perms =
     (if (case perms of None \<Rightarrow> False | Some ps \<Rightarrow> length ps \<noteq> 0)
      then Inr (MerkleTree (encodedPermissionData u (case perms of None \<Rightarrow> [] | Some ps \<Rightarrow> ps))
                  (keccak256 u) \<lparr>sortPairs = True, hashLeaves = True, complete = False\<rparr>)
      else andThen (pad ''00'' 32)
             (\<lambda>placeholder.
                Inr (MerkleTree [placeholder] (keccak256 u)
                       \<lparr>sortPairs = False, hashLeaves = False, complete = True\<rparr>)))"

definition signerToSessionKeyValidator ::
  "('r, 'x, 'u) utils \<Rightarrow> client \<Rightarrow> ('r, 'x) SessionKeyArgs
     \<Rightarrow> error + ('r, 'x) SessionKeyPlugin" where
  "signerToSessionKeyValidator u c args =
     (if version (arg_entryPoint args) \<noteq> ''0.6'' then Inl UnsupportedEntryPoint
      else
        (let vd = arg_validatorData args;
             given = (case vd of None \<Rightarrow> None | Some d \<Rightarrow> permissions d)
         in andThen
              (case given of
                 None \<Rightarrow> Inr []
               | Some ps \<Rightarrow>
                   mapThrow (\<lambda>perm. orThrow (getPermissionFromABI u (others perm)) HelperError) ps)
           (\<lambda>generatedPermissionParams.
         andThen
              (case given of
                 None \<Rightarrow> Inr []
               | Some ps \<Rightarrow> mapThrow (fillPermission generatedPermissionParams) (enumerate 0 ps))
           (\<lambda>filled.
         andThen (orThrow (toSigner c (arg_signer args)) SignerError)
           (\<lambda>vs.
         andThen (orThrow (getChainId c) TransportError)
           (\<lambda>cid.
         andThen (buildMerkleTree u (Some filled))
           (\<lambda>tree.
              Inr \<lparr> sessionKeyData =
                      \<lparr> validAfter =
                          Some (case vd of None \<Rightarrow> 0
                                | Some d \<Rightarrow> (case validAfter d of None \<Rightarrow> 0 | Some v \<Rightarrow> v)),
                        validUntil =
                          Some (case vd of None \<Rightarrow> 0
                                | Some d \<Rightarrow> (case validUntil d of None \<Rightarrow> 0 | Some v \<Rightarrow> v)),
                        paymaster =
                          Some (case vd of None \<Rightarrow> zeroAddress
                                | Some d \<Rightarrow>
                                    (case paymaster d of None \<Rightarrow> zeroAddress | Some a \<Rightarrow> a)),
                        permissions = Some filled \<rparr>,
                    signer = arg_signer args,
                    viemSigner = vs,
                    chainId = cid,
                    merkleTree = tree,
                    validatorAddress =
                      (case arg_validatorAddress args of
                         None \<Rightarrow> SESSION_KEY_VALIDATOR_ADDRESS u
                       | Some a \<Rightarrow> a),
                    entryPoint = arg_entryPoint args \<rparr>)))))))"

record SessionNonces =
  lastNonce :: int
  invalidNonce :: int

definition getSessionNonces ::
  "('r, 'x) SessionKeyPlugin \<Rightarrow> client \<Rightarrow> hex \<Rightarrow> SessionNonces io" where
  "getSessionNonces p c kernelAccountAddress =
     io_bind
       (readContract (nonces c (validatorAddress p) kernelAccountAddress)
          (validatorAddress p) ''nonces'' [kernelAccountAddress])
       (\<lambda>nonce. io_pure (Inr \<lparr>lastNonce = fst nonce, invalidNonce = snd nonce\<rparr>))"

definition getEnableData ::
  "('r, 'x) SessionKeyPlugin \<Rightarrow> client \<Rightarrow> hex option \<Rightarrow> int option \<Rightarrow> hex io" where
  "getEnableData p c kernelAccountAddress enabledLastNonce =
     (case kernelAccountAddress of
        None \<Rightarrow> io_pure (Inl KernelAccountAddressNotProvided)
      | Some account \<Rightarrow>
          io_bind
            (case enabledLastNonce of
               Some n \<Rightarrow> io_pure (Inr n)
             | None \<Rightarrow>
                 io_bind (getSessionNonces p c account)
                   (\<lambda>sessionNonces. io_pure (Inr (lastNonce sessionNonces + 1))))
            (\<lambda>nonce. io_pure
               (andThen (pad (getHexRoot (merkleTree p)) 32)
                  (\<lambda>rootWord.
                andThen
                  (andThen
                     (toHex_number
                        (case validAfter (sessionKeyData p) of None \<Rightarrow> 0 | Some v \<Rightarrow> v))
                     (\<lambda>h. pad h 6))
                  (\<lambda>after.
                andThen
                  (andThen
                     (toHex_number
                        (case validUntil (sessionKeyData p) of None \<Rightarrow> 0 | Some v \<Rightarrow> v))
                     (\<lambda>h. pad h 6))
                  (\<lambda>until.
                andThen (andThen (toHex_bigint nonce) (\<lambda>h. pad h 32))
                  (\<lambda>nonceWord.
                     Inr (concatHex
                            [address (viemSigner p), rootWord, after, until,
                             (case paymaster (sessionKeyData p) of
                                None \<Rightarrow> zeroAddress
                              | Some a \<Rightarrow> a),
                             nonceWord]))))))))"

definition getEncodedPermissionProofData ::
  "('r, 'x, 'u) utils \<Rightarrow> ('r, 'x) SessionKeyPlugin \<Rightarrow> hex \<Rightarrow> error + hex" where
  "getEncodedPermissionProofData u p cd =
     (let perms = permissions (sessionKeyData p);
          matchingPermission = findMatchingPermissions u cd perms;
          configured = (case perms of None \<Rightarrow> False | Some ps \<Rightarrow> length ps \<noteq> 0)
      in andThen
           (case matchingPermission of
              Some _ \<Rightarrow> Inr ()
            | None \<Rightarrow>
                andThen (pad ''00'' 32)
                  (\<lambda>placeholder.
                     if getHexRoot (merkleTree p) \<noteq> placeholder
                     then Inl NoMatchingPermission else Inr ()))
           (\<lambda>_.
              (let encodedPermission =
                     (case matchingPermission of
                        None \<Rightarrow> []
                      | Some m \<Rightarrow> if configured then encodePermissionData u m None else []);
                   merkleProof =
                     (case matchingPermission of
                        None \<Rightarrow> []
                      | Some (Batch ms) \<Rightarrow>
                          map (\<lambda>perm. Arr (getHexProof (merkleTree p) perm))
                            (map (\<lambda>permission.
                                    keccak256 u (encodePermissionData u (One permission) None))
                               ms)
                      | Some (One m) \<Rightarrow>
                          map Str (getHexProof (merkleTree p) (keccak256 u encodedPermission)))
               in Inr (case matchingPermission of
                         None \<Rightarrow> []
                       | Some m \<Rightarrow>
                           if configured then encodePermissionData u m (Some merkleProof)
                           else []))))"

definition signUserOperation ::
  "('r, 'x, 'u) utils \<Rightarrow> client \<Rightarrow> ('r, 'x) SessionKeyPlugin \<Rightarrow> 'u UserOperation_scheme
     \<Rightarrow> error + hex" where
  "signUserOperation u c p userOperation =
     (let userOpHash =
            getUserOperationHash u (userOperation\<lparr>signature := []\<rparr>) (entryPoint p) (chainId p)
      in andThen (orThrow (signMessage c (address (viemSigner p)) userOpHash) SignerError)
           (\<lambda>signed.
         andThen (orThrow (fixSignedData u signed) HelperError)
           (\<lambda>fixedSignature.
         andThen (getEncodedPermissionProofData u p (callData userOperation))
           (\<lambda>proofData.
              Inr (concatHex [address (viemSigner p), fixedSignature, proofData])))))"

definition getNonceKey :: "hex option \<Rightarrow> int option \<Rightarrow> int" where
  "getNonceKey accountAddress customNonceKey =
     (case customNonceKey of
        None \<Rightarrow> 0
      | Some k \<Rightarrow> if k \<noteq> 0 then k else 0)"

definition getStubSignature ::
  "('r, 'x, 'u) utils \<Rightarrow> ('r, 'x) SessionKeyPlugin \<Rightarrow> 'u UserOperation_scheme
     \<Rightarrow> error + hex" where
  "getStubSignature u p userOperation =
     andThen (getEncodedPermissionProofData u p (callData userOperation))
       (\<lambda>proofData.
          Inr (concatHex [address (viemSigner p), DUMMY_ECDSA_SIG u, proofData]))"

text \<open>Lines 310 to 317: the stored session fields, laid out as enable data.\<close>

definition enableDataHex ::
  "('r, 'x) SessionKeyPlugin \<Rightarrow> hex \<times> int \<times> int \<times> hex \<times> int \<Rightarrow> error + hex" where
  "enableDataHex p enableData =
     (case enableData of (storedRoot, storedAfter, storedUntil, storedPaymaster, storedNonce) \<Rightarrow>
        andThen (pad storedRoot 32)
          (\<lambda>rootWord.
        andThen (andThen (toHex_number storedAfter) (\<lambda>h. pad h 6))
          (\<lambda>after.
        andThen (andThen (toHex_number storedUntil) (\<lambda>h. pad h 6))
          (\<lambda>until.
        andThen (andThen (toHex_bigint storedNonce) (\<lambda>h. pad h 32))
          (\<lambda>nonceWord.
             Inr (concatHex
                    [address (viemSigner p), rootWord, after, until, storedPaymaster,
                     nonceWord]))))))"

definition isEnabled ::
  "('r, 'x) SessionKeyPlugin \<Rightarrow> client \<Rightarrow> hex \<Rightarrow> hex \<Rightarrow> bool io" where
  "isEnabled p c kernelAccountAddress selector =
     try_catch_false
       (io_bind
          (readContract (getExecution c kernelAccountAddress selector)
             kernelAccountAddress ''getExecution'' [selector])
          (\<lambda>execDetail.
        io_bind
          (readContract
             (sessionData c (validatorAddress p) (address (signer p)) kernelAccountAddress)
             (validatorAddress p) ''sessionData'' [address (signer p), kernelAccountAddress])
          (\<lambda>enableData.
        io_bind (io_pure (enableDataHex p enableData))
          (\<lambda>stored.
             if toLowerCase (validator execDetail) = toLowerCase (validatorAddress p)
                \<and> snd (snd (snd (snd enableData))) \<noteq> 0
             then io_bind
                    (getEnableData p c (Some kernelAccountAddress)
                       (Some (snd (snd (snd (snd enableData))))))
                    (\<lambda>expected. io_pure (Inr (toLowerCase stored = toLowerCase expected)))
             else io_pure (Inr False)))))"

text \<open>
  The permissions the caller configured: \<^verbatim>\<open>validatorData?.permissions\<close>, none when
  either is missing.
\<close>

definition configuredPermissions :: "('r, 'x) SessionKeyArgs \<Rightarrow> ('r, 'x) Permission list" where
  "configuredPermissions args =
     (case arg_validatorData args of
        None \<Rightarrow> []
      | Some d \<Rightarrow> (case permissions d of None \<Rightarrow> [] | Some ps \<Rightarrow> ps))"

section \<open>The modular-permission validator plugin\<close>

record 'u Policy =
  getPolicyInfoInBytes :: hex
  getPolicyData :: hex
  getSignaturePolicyData :: "'u UserOperation_scheme \<Rightarrow> hex"

record ModularSigner =
  signerContractAddress :: hex
  getSignerData :: hex
  getDummySignature :: hex

text \<open>A value handed to \<^verbatim>\<open>encodeAbiParameters\<close>, tagged with its declared type.\<close>

datatype abiValue =
    Bytes12 hex
  | AbiAddress hex
  | Uint48 int
  | Bytes32Array "hex list"
  | Bytes hex
  | BytesArray "hex list"

text \<open>
  \<^verbatim>\<open>MAX_FLAG\<close> and the default validator address are constants of
  \<^verbatim>\<open>./constants.js\<close>, which is not under \<^verbatim>\<open>src/\<close>; the ABI codec and the hash are
  library functions. They are parameters; the codec returns \<open>None\<close> when it throws.
\<close>

record modularUtils =
  mp_keccak256 :: "hex \<Rightarrow> hex"
  encodeAbiParameters :: "abiValue list \<Rightarrow> hex option"
  MAX_FLAG :: hex
  MODULAR_PERMISSION_VALIDATOR_ADDRESS :: hex

record 'u ModularPermissionPlugin =
  mp_signer :: ModularSigner
  mp_policies :: "'u Policy list"
  mp_validUntil :: "int option"
  mp_validAfter :: "int option"
  mp_validatorAddress :: hex
  mp_entryPoint :: EntryPoint
  mp_chainId :: int

record 'u ModularPermissionArgs =
  marg_signer :: ModularSigner
  marg_entryPoint :: EntryPoint
  marg_policies :: "'u Policy list"
  marg_validUntil :: "int option"
  marg_validAfter :: "int option"
  marg_validatorAddress :: "hex option"

definition createPermissionValidator ::
  "modularUtils \<Rightarrow> client \<Rightarrow> 'u ModularPermissionArgs \<Rightarrow> error + 'u ModularPermissionPlugin" where
  "createPermissionValidator mu c args =
     andThen (orThrow (getChainId c) TransportError)
       (\<lambda>cid.
          if version (marg_entryPoint args) \<noteq> ''0.6'' then Inl UnsupportedEntryPoint
          else Inr \<lparr> mp_signer = marg_signer args,
                     mp_policies = marg_policies args,
                     mp_validUntil = marg_validUntil args,
                     mp_validAfter = marg_validAfter args,
                     mp_validatorAddress =
                       (case marg_validatorAddress args of
                          None \<Rightarrow> MODULAR_PERMISSION_VALIDATOR_ADDRESS mu
                        | Some a \<Rightarrow> a),
                     mp_entryPoint = marg_entryPoint args,
                     mp_chainId = cid \<rparr>)"

record Nonces =
  mp_lastNonce :: int
  revoked :: int

definition getNonces :: "'u ModularPermissionPlugin \<Rightarrow> client \<Rightarrow> hex \<Rightarrow> Nonces io" where
  "getNonces m c kernelAccountAddress =
     io_bind
       (readContract (nonces c (mp_validatorAddress m) kernelAccountAddress)
          (mp_validatorAddress m) ''nonces'' [kernelAccountAddress])
       (\<lambda>nonce. io_pure (Inr \<lparr>mp_lastNonce = fst nonce, revoked = snd nonce\<rparr>))"

definition mp_getEnableData ::
  "modularUtils \<Rightarrow> 'u ModularPermissionPlugin \<Rightarrow> client \<Rightarrow> hex option \<Rightarrow> hex io" where
  "mp_getEnableData mu m c kernelAccountAddress =
     io_bind
       (case kernelAccountAddress of
          Some account \<Rightarrow>
            io_bind (getNonces m c account) (\<lambda>ns. io_pure (Inr (mp_lastNonce ns + 1)))
        | None \<Rightarrow> io_pure (Inr 0))
       (\<lambda>nonce. io_pure
          (andThen (andThen (toHex_bigint nonce) (\<lambda>h. pad h 16))
             (\<lambda>nonceWord.
           andThen
             (andThen (toHex_number (case mp_validAfter m of None \<Rightarrow> 0 | Some v \<Rightarrow> v))
                (\<lambda>h. pad h 6))
             (\<lambda>after.
           andThen
             (andThen (toHex_number (case mp_validUntil m of None \<Rightarrow> 0 | Some v \<Rightarrow> v))
                (\<lambda>h. pad h 6))
             (\<lambda>until.
           andThen
             (orThrow
                (encodeAbiParameters mu
                   [Bytes32Array (map getPolicyInfoInBytes (mp_policies m)),
                    Bytes (getSignerData (mp_signer m)),
                    BytesArray (map getPolicyData (mp_policies m))])
                HelperError)
             (\<lambda>encoded.
                Inr (concatHex
                       [nonceWord, MAX_FLAG mu, after, until,
                        signerContractAddress (mp_signer m), encoded])))))))"



section \<open>Concrete configurations\<close>

text \<open>
  A toy hash (never the zero word), a toy codec and a matcher on the selector, for
  evaluating the plugins on concrete inputs.
\<close>

definition demo_hash :: "hex \<Rightarrow> hex" where
  "demo_hash x = CHR ''1'' # take 63 (x @ replicate 63 CHR ''0'')"

definition demo_encode :: "(nat, hex) Permission matched \<Rightarrow> proofItem list option \<Rightarrow> hex" where
  "demo_encode m prf =
     (case m of One q \<Rightarrow> others q | Batch qs \<Rightarrow> concat (map others qs))
     @ (case prf of
          None \<Rightarrow> []
        | Some items \<Rightarrow> concat (map (\<lambda>it. case it of Str h \<Rightarrow> h | Arr hs \<Rightarrow> concat hs) items))"

definition demo_match ::
  "hex \<Rightarrow> (nat, hex) Permission list option \<Rightarrow> (nat, hex) Permission matched option" where
  "demo_match cd perms =
     (case perms of
        None \<Rightarrow> None
      | Some ps \<Rightarrow>
          (case filter (\<lambda>q. sig q = Some (take 8 cd)) ps of [] \<Rightarrow> None | q # _ \<Rightarrow> Some (One q)))"

definition demo_utils :: "(nat, hex, unit) utils" where
  "demo_utils =
     \<lparr> keccak256 = demo_hash,
       encodePermissionData = demo_encode,
       findMatchingPermissions = demo_match,
       getPermissionFromABI = (\<lambda>x. Some (None, None)),
       fixSignedData = (\<lambda>s. if length s = 130 then Some s else None),
       getUserOperationHash = (\<lambda>uo ep cid. demo_hash (callData uo)),
       DUMMY_ECDSA_SIG = replicate 130 CHR ''f'',
       SESSION_KEY_VALIDATOR_ADDRESS = replicate 38 CHR ''5'' @ ''ab'' \<rparr>"

text \<open>A chain on which nothing is stored for the session, and one that stores a session.\<close>

definition demo_client :: client where
  "demo_client =
     \<lparr> getChainId = Some 1,
       toSigner = (\<lambda>s. Some s),
       signMessage = (\<lambda>a h. Some (replicate 130 CHR ''a'')),
       nonces = (\<lambda>v a. Some (4, 0)),
       getExecution =
         (\<lambda>a sel. Some \<lparr>executor = replicate 40 CHR ''0'',
                           validator = replicate 38 CHR ''5'' @ ''AB''\<rparr>),
       sessionData = (\<lambda>v s a. None),
       permissions_entry = (\<lambda>v i a. None) \<rparr>"

definition demo_permission :: "(nat, hex) Permission" where
  "demo_permission =
     \<lparr> valueLimit = None, sig = Some ''11223344'', rules = None, index = None,
       executionRule = None, operation = None, others = ''aaaa'' \<rparr>"

definition demo_args :: "(nat, hex) Permission list option \<Rightarrow> (nat, hex) SessionKeyArgs" where
  "demo_args perms =
     \<lparr> arg_signer = \<lparr>address = replicate 40 CHR ''7''\<rparr>,
       arg_entryPoint = \<lparr>entryPointAddress = replicate 40 CHR ''e'', version = ''0.6''\<rparr>,
       arg_validatorData =
         Some \<lparr>validAfter = None, validUntil = Some 255, paymaster = None, permissions = perms\<rparr>,
       arg_validatorAddress = None \<rparr>"

definition demo_plugin :: "(nat, hex) Permission list \<Rightarrow> merkleTree \<Rightarrow> (nat, hex) SessionKeyPlugin" where
  "demo_plugin filled tree =
     \<lparr> sessionKeyData =
         \<lparr> validAfter = Some 0, validUntil = Some 255, paymaster = Some (replicate 40 CHR ''0''),
           permissions = Some filled \<rparr>,
       signer = \<lparr>address = replicate 40 CHR ''7''\<rparr>,
       viemSigner = \<lparr>address = replicate 40 CHR ''7''\<rparr>,
       chainId = 1,
       merkleTree = tree,
       validatorAddress = replicate 38 CHR ''5'' @ ''ab'',
       entryPoint = \<lparr>entryPointAddress = replicate 40 CHR ''e'', version = ''0.6''\<rparr> \<rparr>"

definition demo_filled :: "(nat, hex) Permission" where
  "demo_filled =
     \<lparr> valueLimit = Some 0, sig = Some ''11223344'', rules = Some [], index = Some 0,
       executionRule = Some \<lparr>ruleValidAfter = 0, interval = 0, runs = 0\<rparr>,
       operation = Some Call, others = ''aaaa'' \<rparr>"

definition demo_tree1 :: merkleTree where
  "demo_tree1 =
     \<lparr> leaves = [demo_hash ''aaaa'', demo_hash ''aaaa''],
       layers = [[demo_hash ''aaaa'', demo_hash ''aaaa''],
                 [demo_hash (demo_hash ''aaaa'' @ demo_hash ''aaaa'')]] \<rparr>"

definition demo_tree0 :: merkleTree where
  "demo_tree0 = \<lparr> leaves = [replicate 64 CHR ''0''], layers = [[replicate 64 CHR ''0'']] \<rparr>"

definition demo_modular_utils :: modularUtils where
  "demo_modular_utils =
     \<lparr> mp_keccak256 = demo_hash,
       encodeAbiParameters =
         (\<lambda>vs. Some (concat (map (\<lambda>v. case v of
                                      Bytes12 h \<Rightarrow> h | AbiAddress h \<Rightarrow> h | Uint48 n \<Rightarrow> toString16 (nat n)
                                    | Bytes32Array hs \<Rightarrow> concat hs | Bytes h \<Rightarrow> h
                                    | BytesArray hs \<Rightarrow> concat hs) vs))),
       MAX_FLAG = ''ffff'',
       MODULAR_PERMISSION_VALIDATOR_ADDRESS = replicate 38 CHR ''6'' @ ''cd'' \<rparr>"

definition demo_modular_plugin :: "unit ModularPermissionPlugin" where
  "demo_modular_plugin =
     \<lparr> mp_signer =
         \<lparr> signerContractAddress = replicate 40 CHR ''8'', getSignerData = ''1234'',
           getDummySignature = replicate 130 CHR ''f'' \<rparr>,
       mp_policies =
         [\<lparr> getPolicyInfoInBytes = replicate 64 CHR ''9'', getPolicyData = ''ab'',
            getSignaturePolicyData = (\<lambda>uo. []) \<rparr>],
       mp_validUntil = Some 255,
       mp_validAfter = None,
       mp_validatorAddress = replicate 38 CHR ''6'' @ ''cd'',
       mp_entryPoint = \<lparr>entryPointAddress = replicate 40 CHR ''e'', version = ''0.6''\<rparr>,
       mp_chainId = 1 \<rparr>"

definition demo_modular_args :: "unit ModularPermissionArgs" where
  "demo_modular_args =
     \<lparr> marg_signer =
         \<lparr> signerContractAddress = replicate 40 CHR ''8'', getSignerData = ''1234'',
           getDummySignature = replicate 130 CHR ''f'' \<rparr>,
       marg_entryPoint = \<lparr>entryPointAddress = replicate 40 CHR ''e'', version = ''0.6''\<rparr>,
       marg_policies =
         [\<lparr> getPolicyInfoInBytes = replicate 64 CHR ''9'', getPolicyData = ''ab'',
            getSignaturePolicyData = (\<lambda>uo. []) \<rparr>],
       marg_validUntil = Some 255,
       marg_validAfter = None,
       marg_validatorAddress = None \<rparr>"



definition demo_client_stored :: "int \<Rightarrow> client" where
  "demo_client_stored storedNonce =
     demo_client
       \<lparr> sessionData :=
           (\<lambda>v s a. Some (demo_hash (demo_hash ''aaaa'' @ demo_hash ''aaaa''), 0, 255,
                          replicate 40 CHR ''0'', storedNonce)) \<rparr>"

definition demo_userOperation :: "hex \<Rightarrow> unit UserOperation_scheme" where
  "demo_userOperation cd = \<lparr>callData = cd, signature = ''ffff''\<rparr>"



section \<open>Basic facts\<close>

text \<open>The concrete plugins are what the constructors return on the concrete arguments.\<close>

lemma demo_plugin_constructed:
  "signerToSessionKeyValidator demo_utils demo_client (demo_args (Some [demo_permission]))
     = Inr (demo_plugin [demo_filled] demo_tree1)"
  "signerToSessionKeyValidator demo_utils demo_client (demo_args (Some []))
     = Inr (demo_plugin [] demo_tree0)"
  "signerToSessionKeyValidator demo_utils demo_client (demo_args None)
     = Inr (demo_plugin [] demo_tree0)"
  by code_simp+

lemma demo_modular_plugin_constructed:
  "createPermissionValidator demo_modular_utils demo_client demo_modular_args
     = Inr demo_modular_plugin"
  by (simp add: createPermissionValidator_def demo_modular_utils_def demo_client_def
        demo_modular_args_def demo_modular_plugin_def andThen_def orThrow_def)

lemma andThen_simps [simp]:
  "andThen (Inl e) f = Inl e"
  "andThen (Inr v) f = f v"
  by (simp_all add: andThen_def)

lemma orThrow_simps [simp]:
  "orThrow None e = Inl e"
  "orThrow (Some v) e = Inr v"
  by (simp_all add: orThrow_def)

lemma io_bind_simps [simp]:
  "io_bind (Inl e, t) f = (Inl e, t)"
  "io_bind (Inr v, t) f = (fst (f v), t @ snd (f v))"
  by (simp_all add: io_bind_def split: prod.splits)

lemma io_pure_simps [simp]:
  "fst (io_pure r) = r"
  "snd (io_pure r) = []"
  by (simp_all add: io_pure_def)

lemma andThen_eq_Inr:
  "andThen m f = Inr r \<longleftrightarrow> (\<exists>v. m = Inr v \<and> f v = Inr r)"
  by (cases m) simp_all

lemma pad_eq_Inr:
  "pad h sz = Inr r \<longleftrightarrow> length h \<le> sz * 2 \<and> r = replicate (sz * 2 - length h) CHR ''0'' @ h"
  by (auto simp: pad_def)

lemma pad_length: "pad h sz = Inr r \<Longrightarrow> length r = sz * 2"
  by (auto simp: pad_def split: if_splits)

lemma pad_placeholder: "pad ''00'' 32 = Inr (replicate 64 CHR ''0'')"
proof -
  have "replicate 64 CHR ''0'' = replicate 62 CHR ''0'' @ replicate 2 CHR ''0''"
    by (simp only: replicate_add [symmetric]) simp
  then show ?thesis
    by (simp add: pad_def numeral_2_eq_2)
qed

lemma concatHex_eq: "concatHex vs = concat vs"
proof -
  have "foldl (\<lambda>acc x. acc @ x) a vs = a @ concat vs" for a
    by (induction vs arbitrary: a) simp_all
  then show ?thesis by (simp add: concatHex_def)
qed

lemma readContract_simps [simp]:
  "readContract None a f args = (Inl TransportError, [ReadContract a f args])"
  "readContract (Some v) a f args = (Inr v, [ReadContract a f args])"
  by (simp_all add: readContract_def)

lemma io_pure_eq [simp]: "io_pure r = (r, [])"
  by (simp add: io_pure_def)

lemma getSessionNonces_Some:
  "nonces c (validatorAddress p) a = Some (l, i) \<Longrightarrow>
   getSessionNonces p c a =
     (Inr \<lparr>lastNonce = l, invalidNonce = i\<rparr>, [ReadContract (validatorAddress p) ''nonces'' [a]])"
  by (simp add: getSessionNonces_def)

lemma getSessionNonces_None:
  "nonces c (validatorAddress p) a = None \<Longrightarrow>
   getSessionNonces p c a =
     (Inl TransportError, [ReadContract (validatorAddress p) ''nonces'' [a]])"
  by (simp add: getSessionNonces_def)

lemma toString16_length: "0 < k \<Longrightarrow> n < 16 ^ k \<Longrightarrow> length (toString16 n) \<le> k"
proof (induction k arbitrary: n)
  case 0
  then show ?case by simp
next
  case (Suc k)
  show ?case
  proof (cases "n < 16")
    case True
    then show ?thesis by (simp add: toString16.simps)
  next
    case False
    with Suc.prems have k: "0 < k" by (cases k) auto
    from Suc.prems have "n div 16 < 16 ^ k"
      by (simp add: less_mult_imp_div_less mult.commute)
    with Suc.IH k have "length (toString16 (n div 16)) \<le> k" by blast
    with False show ?thesis by (subst toString16.simps) simp
  qed
qed

lemma pad_toHex_number_ok:
  assumes "0 \<le> v" "v < 2 ^ 48"
  shows "\<exists>h. andThen (toHex_number v) (\<lambda>h. pad h 6) = Inr h"
proof -
  have "nat v < 16 ^ 12" using assms by (simp add: nat_less_iff)
  then have "length (toString16 (nat v)) \<le> 12" by (intro toString16_length) simp_all
  moreover have "\<not> v > MAX_SAFE_INTEGER" using assms by (simp add: MAX_SAFE_INTEGER_def)
  ultimately show ?thesis using assms by (simp add: toHex_number_def pad_def)
qed

lemma pad_toHex_bigint_ok:
  assumes "0 \<le> v" "v < 16 ^ (sz * 2)" "0 < sz"
  shows "\<exists>h. andThen (toHex_bigint v) (\<lambda>h. pad h sz) = Inr h"
proof -
  have "nat v < 16 ^ (sz * 2)" using assms by (simp add: nat_less_iff)
  then have "length (toString16 (nat v)) \<le> sz * 2" using assms by (intro toString16_length) simp_all
  then show ?thesis using assms by (simp add: toHex_bigint_def pad_def)
qed

lemma try_catch_false_simps [simp]:
  "try_catch_false (Inl e, t) = (Inr False, t)"
  "try_catch_false (Inr b, t) = (Inr b, t)"
  by (simp_all add: try_catch_false_def)


lemma try_catch_false_Inl: "fst body = Inl e \<Longrightarrow> fst (try_catch_false body) = Inr False"
  by (cases body) simp

lemma io_bind_Inl: "fst m = Inl e \<Longrightarrow> fst (io_bind m f) = Inl e"
  by (cases m) simp


section \<open>Facts about the tree and the constructor\<close>


lemma createHashes_single: "length nodes \<le> 1 \<Longrightarrow> createHashes hashFn sp nodes = [nodes]"
  by (subst createHashes.simps) simp

lemma createHashes_step:
  "length nodes > 1 \<Longrightarrow>
   createHashes hashFn sp nodes = nodes # createHashes hashFn sp (nextLayer hashFn sp nodes)"
  by (subst createHashes.simps) simp





lemma buildMerkleTree_empty:
  "buildMerkleTree u (Some []) =
     Inr \<lparr>leaves = [replicate 64 CHR ''0''], layers = [[replicate 64 CHR ''0'']]\<rparr>"
  by (simp add: buildMerkleTree_def pad_placeholder MerkleTree_def createHashes_single Let_def)


lemma mapThrow_length: "mapThrow f xs = Inr ys \<Longrightarrow> length ys = length xs"
proof (induction xs arbitrary: ys)
  case Nil
  then show ?case by simp
next
  case (Cons x xs)
  then show ?case
    by (auto simp: andThen_eq_Inr)
qed

lemma constructed:
  assumes "signerToSessionKeyValidator u c args = Inr p"
  shows "\<exists>filled. permissions (sessionKeyData p) = Some filled
           \<and> length filled = length (configuredPermissions args)
           \<and> buildMerkleTree u (Some filled) = Inr (merkleTree p)"
proof -
  from assms have v: "version (arg_entryPoint args) = ''0.6''"
    by (auto simp: signerToSessionKeyValidator_def split: if_splits)
  show ?thesis
  proof (cases "case arg_validatorData args of None \<Rightarrow> None | Some d \<Rightarrow> permissions d")
    case None
    then have cp: "configuredPermissions args = []"
      by (auto simp: configuredPermissions_def split: option.splits)
    from assms v None show ?thesis
      unfolding signerToSessionKeyValidator_def Let_def cp
      by (auto simp: andThen_eq_Inr)
  next
    case (Some ps)
    then have cp: "configuredPermissions args = ps"
      by (auto simp: configuredPermissions_def split: option.splits)
    from assms v Some show ?thesis
      unfolding signerToSessionKeyValidator_def Let_def cp
      by (auto simp: andThen_eq_Inr dest!: mapThrow_length)
  qed
qed

section \<open>The commitment tree of the session-key plugin\<close>

lemma Buffer_compare_refl [simp]: "Buffer_compare x x = 0"
  by (induction x) simp_all

lemma getHexRoot_placeholder:
  "getHexRoot \<lparr>leaves = [z], layers = [[z]]\<rparr> = z"
  by (simp add: getHexRoot_def)

lemma proofData_unconfigured:
  assumes "permissions (sessionKeyData p) = Some []"
    and "getHexRoot (merkleTree p) = replicate 64 CHR ''0''"
  shows "getEncodedPermissionProofData u p cd = Inr []"
  using assms
  by (cases "findMatchingPermissions u cd (Some [])")
     (simp_all add: getEncodedPermissionProofData_def Let_def pad_placeholder)

text \<open>
  C3. For the empty rule set (no permissions configured) the plugin's commitment tree
  is a single-node tree: its only leaf, its only layer and its root are the unhashed
  placeholder of 32 zero bytes. The proof lookup treats this state as ungated:
  \<open>getEncodedPermissionProofData\<close> returns \<^verbatim>\<open>"0x"\<close> without raising an error, for any
  call data.
\<close>

theorem empty_rule_set_is_ungated:
  assumes "signerToSessionKeyValidator u c args = Inr p"
    and "configuredPermissions args = []"
  shows "permissions (sessionKeyData p) = Some []
       \<and> leaves (merkleTree p) = [replicate 64 CHR ''0'']
       \<and> layers (merkleTree p) = [[replicate 64 CHR ''0'']]
       \<and> getHexRoot (merkleTree p) = replicate 64 CHR ''0''
       \<and> getEncodedPermissionProofData u p cd = Inr []"
proof -
  from constructed [OF assms(1)] assms(2) have
    perms: "permissions (sessionKeyData p) = Some []"
    and tree: "buildMerkleTree u (Some []) = Inr (merkleTree p)"
    by auto
  from tree have t: "merkleTree p
      = \<lparr>leaves = [replicate 64 CHR ''0''], layers = [[replicate 64 CHR ''0'']]\<rparr>"
    by (simp add: buildMerkleTree_empty)
  then have r: "getHexRoot (merkleTree p) = replicate 64 CHR ''0''"
    by (simp add: getHexRoot_placeholder)
  from perms t r proofData_unconfigured [OF perms r] show ?thesis by simp
qed

theorem empty_rule_set_is_ungated_witness:
  "signerToSessionKeyValidator demo_utils demo_client (demo_args (Some [])) = Inr (demo_plugin [] demo_tree0)
   \<and> configuredPermissions (demo_args (Some [])) = []
   \<and> layers (merkleTree (demo_plugin [] demo_tree0)) = [[replicate 64 CHR ''0'']]
   \<and> getHexRoot (merkleTree (demo_plugin [] demo_tree0)) = replicate 64 CHR ''0''
   \<and> getEncodedPermissionProofData demo_utils (demo_plugin [] demo_tree0) ''1122334455'' = Inr []"
proof -
  have c: "signerToSessionKeyValidator demo_utils demo_client (demo_args (Some []))
           = Inr (demo_plugin [] demo_tree0)"
    by code_simp
  have e: "configuredPermissions (demo_args (Some [])) = []"
    by code_simp
  from empty_rule_set_is_ungated [OF c e, of "''1122334455''"] c e show ?thesis by simp
qed

lemma buildMerkleTree_single:
  "buildMerkleTree u (Some [q]) =
     Inr \<lparr> leaves = [keccak256 u (encodePermissionData u (One q) None),
                      keccak256 u (encodePermissionData u (One q) None)],
            layers = [[keccak256 u (encodePermissionData u (One q) None),
                       keccak256 u (encodePermissionData u (One q) None)],
                      [keccak256 u (keccak256 u (encodePermissionData u (One q) None)
                                    @ keccak256 u (encodePermissionData u (One q) None))]] \<rparr>"
  by (simp add: buildMerkleTree_def encodedPermissionData_def MerkleTree_def Let_def
        createHashes_step createHashes_single hashPair_def)

text \<open>
  C6. For every rule set of exactly one permission, the encoded leaf sequence handed to
  the tree builder has exactly two elements, the second a duplicate of the first; the
  tree has two leaves, the proof of the permission's leaf hash has one element, and
  walking that proof from the leaf hash recomputes the root.
\<close>

theorem single_permission_duplicated:
  assumes "signerToSessionKeyValidator u c args = Inr p"
    and "configuredPermissions args = [perm]"
  shows "\<exists>q. permissions (sessionKeyData p) = Some [q]
       \<and> encodedPermissionData u [q]
           = [encodePermissionData u (One q) None, encodePermissionData u (One q) None]
       \<and> merkleTree p
           = MerkleTree (encodedPermissionData u [q]) (keccak256 u)
               \<lparr>sortPairs = True, hashLeaves = True, complete = False\<rparr>
       \<and> length (leaves (merkleTree p)) = 2
       \<and> length (getHexProof (merkleTree p) (keccak256 u (encodePermissionData u (One q) None))) = 1
       \<and> walkProof (keccak256 u) (keccak256 u (encodePermissionData u (One q) None))
            (getHexProof (merkleTree p) (keccak256 u (encodePermissionData u (One q) None)))
           = getHexRoot (merkleTree p)
       \<and> verify (keccak256 u)
            (getHexProof (merkleTree p) (keccak256 u (encodePermissionData u (One q) None)))
            (keccak256 u (encodePermissionData u (One q) None))
            (getHexRoot (merkleTree p))"
proof -
  from constructed [OF assms(1)] assms(2) obtain filled where
    perms: "permissions (sessionKeyData p) = Some filled"
    and len: "length filled = 1"
    and tree: "buildMerkleTree u (Some filled) = Inr (merkleTree p)"
    by auto
  from len obtain q where q: "filled = [q]"
    by (cases filled) auto
  let ?h = "keccak256 u (encodePermissionData u (One q) None)"
  have enc: "encodedPermissionData u [q]
           = [encodePermissionData u (One q) None, encodePermissionData u (One q) None]"
    by (simp add: encodedPermissionData_def)
  from tree q have mt: "merkleTree p
           = MerkleTree (encodedPermissionData u [q]) (keccak256 u)
               \<lparr>sortPairs = True, hashLeaves = True, complete = False\<rparr>"
    by (simp add: buildMerkleTree_def)
  from tree q have t: "merkleTree p
      = \<lparr> leaves = [?h, ?h], layers = [[?h, ?h], [keccak256 u (?h @ ?h)]] \<rparr>"
    by (simp add: buildMerkleTree_single)
  have pf: "getHexProof (merkleTree p) ?h = [?h]"
    by (simp add: t getHexProof_def)
  have root: "getHexRoot (merkleTree p) = keccak256 u (?h @ ?h)"
    by (simp add: t getHexRoot_def)
  have walk: "walkProof (keccak256 u) ?h (getHexProof (merkleTree p) ?h) = getHexRoot (merkleTree p)"
    by (simp add: pf root)
  have ver: "verify (keccak256 u) (getHexProof (merkleTree p) ?h) ?h (getHexRoot (merkleTree p))"
    by (simp add: verify_def walk)
  have l2: "length (leaves (merkleTree p)) = 2" by (simp add: t)
  have l1: "length (getHexProof (merkleTree p) ?h) = 1" by (simp add: pf)
  from perms q enc mt l2 l1 walk ver show ?thesis by blast
qed

theorem single_permission_duplicated_witness:
  "\<exists>q. signerToSessionKeyValidator demo_utils demo_client (demo_args (Some [demo_permission]))
         = Inr (demo_plugin [q] demo_tree1)
       \<and> configuredPermissions (demo_args (Some [demo_permission])) = [demo_permission]
       \<and> encodedPermissionData demo_utils [q] = [''aaaa'', ''aaaa'']
       \<and> getHexProof (merkleTree (demo_plugin [q] demo_tree1)) (demo_hash ''aaaa'') = [demo_hash ''aaaa'']
       \<and> verify (keccak256 demo_utils)
            (getHexProof (merkleTree (demo_plugin [q] demo_tree1))
               (keccak256 demo_utils (encodePermissionData demo_utils (One q) None)))
            (keccak256 demo_utils (encodePermissionData demo_utils (One q) None))
            (getHexRoot (merkleTree (demo_plugin [q] demo_tree1)))"
proof -
  have c: "signerToSessionKeyValidator demo_utils demo_client (demo_args (Some [demo_permission]))
           = Inr (demo_plugin [demo_filled] demo_tree1)"
    by code_simp
  have e: "configuredPermissions (demo_args (Some [demo_permission])) = [demo_permission]"
    by code_simp
  have enc: "encodedPermissionData demo_utils [demo_filled] = [''aaaa'', ''aaaa'']"
    by code_simp
  have pf: "getHexProof (merkleTree (demo_plugin [demo_filled] demo_tree1)) (demo_hash ''aaaa'')
             = [demo_hash ''aaaa'']"
    by code_simp
  have pq: "permissions (sessionKeyData (demo_plugin [demo_filled] demo_tree1)) = Some [demo_filled]"
    by code_simp
  from single_permission_duplicated [OF c e] obtain q where
    q: "permissions (sessionKeyData (demo_plugin [demo_filled] demo_tree1)) = Some [q]"
    and v: "verify (keccak256 demo_utils)
            (getHexProof (merkleTree (demo_plugin [demo_filled] demo_tree1))
               (keccak256 demo_utils (encodePermissionData demo_utils (One q) None)))
            (keccak256 demo_utils (encodePermissionData demo_utils (One q) None))
            (getHexRoot (merkleTree (demo_plugin [demo_filled] demo_tree1)))"
    by blast
  from q pq have "q = demo_filled" by simp
  with c e enc pf v show ?thesis by blast
qed

section \<open>Signing a user operation\<close>


lemma signUserOperation_signed:
  assumes "signMessage c (address (viemSigner p))
             (getUserOperationHash u (uo\<lparr>signature := []\<rparr>) (entryPoint p) (chainId p))
           = Some signed"
    and "fixSignedData u signed = Some fixedSignature"
  shows "signUserOperation u c p uo =
     andThen (getEncodedPermissionProofData u p (callData uo))
       (\<lambda>proofData. Inr (address (viemSigner p) @ fixedSignature @ proofData))"
  using assms by (simp add: signUserOperation_def Let_def concatHex_eq)






text \<open>
  C7. For every user operation on which both succeed, \<open>getStubSignature\<close> and
  \<open>signUserOperation\<close> return the delegate's address, then a signature, then the same
  proof segment, computed by the same proof lookup; only the signature bytes differ.
  \<^verbatim>\<open>DUMMY_ECDSA_SIG\<close> and \<^verbatim>\<open>fixSignedData\<close> are not under \<^verbatim>\<open>src/\<close>: given that
  a fixed-up signature has the byte length of the dummy signature, the two results have
  the same total byte length.
\<close>

theorem stub_matches_signature_framing:
  assumes "getStubSignature u p uo = Inr stub"
    and "signUserOperation u c p uo = Inr signedBytes"
    and "\<And>sg fixed. fixSignedData u sg = Some fixed \<Longrightarrow> length fixed = length (DUMMY_ECDSA_SIG u)"
  shows "\<exists>fixedSignature proofData.
      getEncodedPermissionProofData u p (callData uo) = Inr proofData
      \<and> stub = address (viemSigner p) @ DUMMY_ECDSA_SIG u @ proofData
      \<and> signedBytes = address (viemSigner p) @ fixedSignature @ proofData
      \<and> length fixedSignature = length (DUMMY_ECDSA_SIG u)
      \<and> length stub = length signedBytes"
proof -
  from assms(1) obtain proofData where
    pd: "getEncodedPermissionProofData u p (callData uo) = Inr proofData"
    and stub: "stub = address (viemSigner p) @ DUMMY_ECDSA_SIG u @ proofData"
    by (auto simp: getStubSignature_def andThen_eq_Inr concatHex_eq)
  from assms(2) obtain sg where
    sg: "signMessage c (address (viemSigner p))
           (getUserOperationHash u (uo\<lparr>signature := []\<rparr>) (entryPoint p) (chainId p)) = Some sg"
    by (cases "signMessage c (address (viemSigner p))
           (getUserOperationHash u (uo\<lparr>signature := []\<rparr>) (entryPoint p) (chainId p))")
       (simp_all add: signUserOperation_def Let_def)
  from assms(2) sg obtain fixedSignature where
    fx: "fixSignedData u sg = Some fixedSignature"
    by (cases "fixSignedData u sg") (simp_all add: signUserOperation_def Let_def)
  from assms(2) pd have sb: "signedBytes = address (viemSigner p) @ fixedSignature @ proofData"
    by (simp add: signUserOperation_signed [OF sg fx])
  from assms(3) [OF fx] have len: "length fixedSignature = length (DUMMY_ECDSA_SIG u)" .
  from pd stub sb len show ?thesis by auto
qed

theorem stub_matches_signature_framing_witness:
  "\<exists>fixedSignature proofData.
      getStubSignature demo_utils (demo_plugin [demo_filled] demo_tree1)
        (demo_userOperation ''1122334455'')
      = Inr (replicate 40 CHR ''7'' @ DUMMY_ECDSA_SIG demo_utils @ proofData)
      \<and> signUserOperation demo_utils demo_client (demo_plugin [demo_filled] demo_tree1)
          (demo_userOperation ''1122334455'')
        = Inr (replicate 40 CHR ''7'' @ fixedSignature @ proofData)
      \<and> length fixedSignature = 130 \<and> length (DUMMY_ECDSA_SIG demo_utils) = 130
      \<and> length (replicate 40 CHR ''7'' @ DUMMY_ECDSA_SIG demo_utils @ proofData)
          = length (replicate 40 CHR ''7'' @ fixedSignature @ proofData)"
proof -
  have st: "getStubSignature demo_utils (demo_plugin [demo_filled] demo_tree1)
        (demo_userOperation ''1122334455'')
      = Inr (replicate 40 CHR ''7'' @ replicate 130 CHR ''f'' @ ''aaaa'' @ demo_hash ''aaaa'')"
    by code_simp
  have si: "signUserOperation demo_utils demo_client (demo_plugin [demo_filled] demo_tree1)
          (demo_userOperation ''1122334455'')
      = Inr (replicate 40 CHR ''7'' @ replicate 130 CHR ''a'' @ ''aaaa'' @ demo_hash ''aaaa'')"
    by code_simp
  have fl: "fixSignedData demo_utils sg = Some fixed \<Longrightarrow> length fixed = length (DUMMY_ECDSA_SIG demo_utils)"
    for sg fixed
    by (auto simp: demo_utils_def split: if_splits)
  have a: "address (viemSigner (demo_plugin [demo_filled] demo_tree1)) = replicate 40 CHR ''7''"
    by (simp add: demo_plugin_def)
  have d: "length (DUMMY_ECDSA_SIG demo_utils) = 130"
    by (simp add: demo_utils_def)
  have T: "\<exists>fixedSignature proofData.
      getEncodedPermissionProofData demo_utils (demo_plugin [demo_filled] demo_tree1)
        (callData (demo_userOperation ''1122334455'')) = Inr proofData
      \<and> replicate 40 CHR ''7'' @ replicate 130 CHR ''f'' @ ''aaaa'' @ demo_hash ''aaaa''
         = address (viemSigner (demo_plugin [demo_filled] demo_tree1)) @ DUMMY_ECDSA_SIG demo_utils @ proofData
      \<and> replicate 40 CHR ''7'' @ replicate 130 CHR ''a'' @ ''aaaa'' @ demo_hash ''aaaa''
         = address (viemSigner (demo_plugin [demo_filled] demo_tree1)) @ fixedSignature @ proofData
      \<and> length fixedSignature = length (DUMMY_ECDSA_SIG demo_utils)
      \<and> length (replicate 40 CHR ''7'' @ replicate 130 CHR ''f'' @ ''aaaa'' @ demo_hash ''aaaa'')
         = length (replicate 40 CHR ''7'' @ replicate 130 CHR ''a'' @ ''aaaa'' @ demo_hash ''aaaa'')"
    by (rule stub_matches_signature_framing [OF st si]) (rule fl)
  from T obtain fixedSignature proofData where
    *: "replicate 40 CHR ''7'' @ replicate 130 CHR ''f'' @ ''aaaa'' @ demo_hash ''aaaa''
         = address (viemSigner (demo_plugin [demo_filled] demo_tree1)) @ DUMMY_ECDSA_SIG demo_utils @ proofData"
       "replicate 40 CHR ''7'' @ replicate 130 CHR ''a'' @ ''aaaa'' @ demo_hash ''aaaa''
         = address (viemSigner (demo_plugin [demo_filled] demo_tree1)) @ fixedSignature @ proofData"
       "length fixedSignature = length (DUMMY_ECDSA_SIG demo_utils)"
    by blast
  have e1: "getStubSignature demo_utils (demo_plugin [demo_filled] demo_tree1)
        (demo_userOperation ''1122334455'')
      = Inr (replicate 40 CHR ''7'' @ DUMMY_ECDSA_SIG demo_utils @ proofData)"
    using st *(1) a by (simp only:)
  have e2: "signUserOperation demo_utils demo_client (demo_plugin [demo_filled] demo_tree1)
          (demo_userOperation ''1122334455'')
        = Inr (replicate 40 CHR ''7'' @ fixedSignature @ proofData)"
    using si *(2) a by (simp only:)
  have e3: "length fixedSignature = 130" using *(3) d by simp
  have e4: "length (replicate 40 CHR ''7'' @ DUMMY_ECDSA_SIG demo_utils @ proofData)
          = length (replicate 40 CHR ''7'' @ fixedSignature @ proofData)"
    using e3 d by simp
  from e1 e2 e3 d e4 show ?thesis by blast
qed

section \<open>Enable data of the session-key plugin\<close>

text \<open>
  C5. For every account \<open>A\<close> and nonce \<open>N\<close>: when the \<open>nonces\<close> read for \<open>A\<close>
  reports the last-used nonce \<open>N - 1\<close>, \<open>getEnableData\<close> called with \<open>A\<close> and the
  pinned nonce \<open>N\<close> returns the same bytes (or the same failure) as \<open>getEnableData\<close>
  called with \<open>A\<close> alone, which resolves the nonce on chain.
\<close>

theorem pinned_nonce_equals_resolved:
  assumes "nonces c (validatorAddress p) A = Some (N - 1, invalid)"
  shows "fst (getEnableData p c (Some A) (Some N)) = fst (getEnableData p c (Some A) None)"
  using assms by (simp add: getEnableData_def getSessionNonces_Some)

theorem pinned_nonce_equals_resolved_witness:
  "nonces demo_client (validatorAddress (demo_plugin [demo_filled] demo_tree1)) ''abcd'' = Some (5 - 1, 0)
   \<and> fst (getEnableData (demo_plugin [demo_filled] demo_tree1) demo_client (Some ''abcd'') None)
     = fst (getEnableData (demo_plugin [demo_filled] demo_tree1) demo_client (Some ''abcd'') (Some 5))
   \<and> (\<exists>d. fst (getEnableData (demo_plugin [demo_filled] demo_tree1) demo_client (Some ''abcd'') (Some 5)) = Inr d)"
proof -
  have h: "nonces demo_client (validatorAddress (demo_plugin [demo_filled] demo_tree1)) ''abcd'' = Some (5 - 1, 0)"
    by code_simp
  have ok: "fst (getEnableData (demo_plugin [demo_filled] demo_tree1) demo_client (Some ''abcd'') (Some 5)) =
    Inr ''777777777777777777777777777777777777777711aaaa00000000000000000000000000000000000000000000000000000000000000000000000000000000ff00000000000000000000000000000000000000000000000000000000000000000000000000000000000000000000000000000005''"
    by code_simp
  have ex: "\<exists>d. fst (getEnableData (demo_plugin [demo_filled] demo_tree1) demo_client (Some ''abcd'') (Some 5)) = Inr d"
    by (rule exI, rule ok)
  from pinned_nonce_equals_resolved [OF h]
  have eq: "fst (getEnableData (demo_plugin [demo_filled] demo_tree1) demo_client (Some ''abcd'') (Some 5))
     = fst (getEnableData (demo_plugin [demo_filled] demo_tree1) demo_client (Some ''abcd'') None)" .
  show ?thesis
    by (intro conjI) (rule h, rule eq [symmetric], rule ex)
qed

lemma getEnableData_Inr_cases:
  assumes "fst (getEnableData p c account pinned) = Inr d"
  shows "\<exists>nonce.
      (pinned = Some nonce
       \<or> (pinned = None \<and>
          (\<exists>a invalid. account = Some a \<and> nonces c (validatorAddress p) a = Some (nonce - 1, invalid))))
      \<and> andThen (pad (getHexRoot (merkleTree p)) 32)
                  (\<lambda>rootWord.
                andThen
                  (andThen
                     (toHex_number
                        (case validAfter (sessionKeyData p) of None \<Rightarrow> 0 | Some v \<Rightarrow> v))
                     (\<lambda>h. pad h 6))
                  (\<lambda>after.
                andThen
                  (andThen
                     (toHex_number
                        (case validUntil (sessionKeyData p) of None \<Rightarrow> 0 | Some v \<Rightarrow> v))
                     (\<lambda>h. pad h 6))
                  (\<lambda>until.
                andThen (andThen (toHex_bigint nonce) (\<lambda>h. pad h 32))
                  (\<lambda>nonceWord.
                     Inr (concatHex
                            [address (viemSigner p), rootWord, after, until,
                             (case paymaster (sessionKeyData p) of
                                None \<Rightarrow> zeroAddress
                              | Some a \<Rightarrow> a),
                             nonceWord]))))) = Inr d"
proof (cases account)
  case None
  with assms show ?thesis by (simp add: getEnableData_def)
next
  case (Some a)
  show ?thesis
  proof (cases pinned)
    case P: (Some n)
    with assms Some show ?thesis by (simp add: getEnableData_def)
  next
    case N: None
    show ?thesis
    proof (cases "nonces c (validatorAddress p) a")
      case None
      with assms Some N show ?thesis by (simp add: getEnableData_def getSessionNonces_None)
    next
      case R: (Some li)
      obtain l i where li: "li = (l, i)" by (cases li)
      with R have r: "nonces c (validatorAddress p) a = Some ((l + 1) - 1, i)" by simp
      from assms Some N R li show ?thesis
        apply (simp add: getEnableData_def getSessionNonces_Some)
        apply (rule exI [of _ "l + 1"])
        apply simp
        done
    qed
  qed
qed

text \<open>
  C2. Whenever \<open>getEnableData\<close> of the session-key plugin returns, for any account
  address, validity window, paymaster and nonce, the bytes are exactly, in this order:
  the delegate signer's address (20 bytes), the Merkle root padded to 32 bytes,
  \<open>validAfter\<close> padded to 6 bytes, \<open>validUntil\<close> padded to 6 bytes, the paymaster
  address (20 bytes) and the nonce (pinned, or the last on-chain nonce plus one)
  padded to 32 bytes: 116 bytes in all. The two addresses are taken to have their 20
  bytes, as their type says.
\<close>

theorem enable_data_layout:
  assumes "fst (getEnableData p c account pinned) = Inr d"
    and "length (address (viemSigner p)) = 40"
    and "length (case paymaster (sessionKeyData p) of None \<Rightarrow> zeroAddress | Some a \<Rightarrow> a) = 40"
  shows "\<exists>rootWord after until nonceWord nonce.
      pad (getHexRoot (merkleTree p)) 32 = Inr rootWord
      \<and> andThen (toHex_number (case validAfter (sessionKeyData p) of None \<Rightarrow> 0 | Some v \<Rightarrow> v))
            (\<lambda>h. pad h 6) = Inr after
      \<and> andThen (toHex_number (case validUntil (sessionKeyData p) of None \<Rightarrow> 0 | Some v \<Rightarrow> v))
            (\<lambda>h. pad h 6) = Inr until
      \<and> andThen (toHex_bigint nonce) (\<lambda>h. pad h 32) = Inr nonceWord
      \<and> (pinned = Some nonce
         \<or> (pinned = None \<and>
            (\<exists>a invalid. account = Some a
               \<and> nonces c (validatorAddress p) a = Some (nonce - 1, invalid))))
      \<and> d = address (viemSigner p) @ rootWord @ after @ until
             @ (case paymaster (sessionKeyData p) of None \<Rightarrow> zeroAddress | Some a \<Rightarrow> a)
             @ nonceWord
      \<and> length rootWord = 64 \<and> length after = 12 \<and> length until = 12
      \<and> length nonceWord = 64 \<and> length d = 232"
proof -
  from getEnableData_Inr_cases [OF assms(1)] obtain nonce where
    src: "pinned = Some nonce
       \<or> (pinned = None \<and>
          (\<exists>a invalid. account = Some a \<and> nonces c (validatorAddress p) a = Some (nonce - 1, invalid)))"
    and asm: "andThen (pad (getHexRoot (merkleTree p)) 32)
                  (\<lambda>rootWord.
                andThen
                  (andThen
                     (toHex_number
                        (case validAfter (sessionKeyData p) of None \<Rightarrow> 0 | Some v \<Rightarrow> v))
                     (\<lambda>h. pad h 6))
                  (\<lambda>after.
                andThen
                  (andThen
                     (toHex_number
                        (case validUntil (sessionKeyData p) of None \<Rightarrow> 0 | Some v \<Rightarrow> v))
                     (\<lambda>h. pad h 6))
                  (\<lambda>until.
                andThen (andThen (toHex_bigint nonce) (\<lambda>h. pad h 32))
                  (\<lambda>nonceWord.
                     Inr (concatHex
                            [address (viemSigner p), rootWord, after, until,
                             (case paymaster (sessionKeyData p) of
                                None \<Rightarrow> zeroAddress
                              | Some a \<Rightarrow> a),
                             nonceWord]))))) = Inr d"
    by blast
  from asm obtain rootWord where rw: "pad (getHexRoot (merkleTree p)) 32 = Inr rootWord"
    and asm1: "andThen
                  (andThen
                     (toHex_number
                        (case validAfter (sessionKeyData p) of None \<Rightarrow> 0 | Some v \<Rightarrow> v))
                     (\<lambda>h. pad h 6))
                  (\<lambda>after.
                andThen
                  (andThen
                     (toHex_number
                        (case validUntil (sessionKeyData p) of None \<Rightarrow> 0 | Some v \<Rightarrow> v))
                     (\<lambda>h. pad h 6))
                  (\<lambda>until.
                andThen (andThen (toHex_bigint nonce) (\<lambda>h. pad h 32))
                  (\<lambda>nonceWord.
                     Inr (concatHex
                            [address (viemSigner p), rootWord, after, until,
                             (case paymaster (sessionKeyData p) of
                                None \<Rightarrow> zeroAddress
                              | Some a \<Rightarrow> a),
                             nonceWord])))) = Inr d"
    unfolding andThen_eq_Inr by blast
  from asm1 obtain after where af: "andThen (toHex_number (case validAfter (sessionKeyData p) of None \<Rightarrow> 0 | Some v \<Rightarrow> v))
            (\<lambda>h. pad h 6) = Inr after"
    and asm2: "andThen
                  (andThen
                     (toHex_number
                        (case validUntil (sessionKeyData p) of None \<Rightarrow> 0 | Some v \<Rightarrow> v))
                     (\<lambda>h. pad h 6))
                  (\<lambda>until.
                andThen (andThen (toHex_bigint nonce) (\<lambda>h. pad h 32))
                  (\<lambda>nonceWord.
                     Inr (concatHex
                            [address (viemSigner p), rootWord, after, until,
                             (case paymaster (sessionKeyData p) of
                                None \<Rightarrow> zeroAddress
                              | Some a \<Rightarrow> a),
                             nonceWord]))) = Inr d"
    by (subst (asm) andThen_eq_Inr) blast
  from asm2 obtain until where un: "andThen (toHex_number (case validUntil (sessionKeyData p) of None \<Rightarrow> 0 | Some v \<Rightarrow> v))
            (\<lambda>h. pad h 6) = Inr until"
    and asm3: "andThen (andThen (toHex_bigint nonce) (\<lambda>h. pad h 32))
                  (\<lambda>nonceWord.
                     Inr (concatHex
                            [address (viemSigner p), rootWord, after, until,
                             (case paymaster (sessionKeyData p) of
                                None \<Rightarrow> zeroAddress
                              | Some a \<Rightarrow> a),
                             nonceWord])) = Inr d"
    by (subst (asm) andThen_eq_Inr) blast
  from asm3 obtain nonceWord where nw: "andThen (toHex_bigint nonce) (\<lambda>h. pad h 32) = Inr nonceWord"
    and d: "d = concatHex
                            [address (viemSigner p), rootWord, after, until,
                             (case paymaster (sessionKeyData p) of
                                None \<Rightarrow> zeroAddress
                              | Some a \<Rightarrow> a),
                             nonceWord]"
    by (subst (asm) andThen_eq_Inr) auto
  have l1: "length rootWord = 64" using pad_length [OF rw] by simp
  from af obtain h1 where "pad h1 6 = Inr after" unfolding andThen_eq_Inr by blast
  then have l2: "length after = 12" using pad_length by fastforce
  from un obtain h2 where "pad h2 6 = Inr until" unfolding andThen_eq_Inr by blast
  then have l3: "length until = 12" using pad_length by fastforce
  from nw obtain h3 where "pad h3 32 = Inr nonceWord" unfolding andThen_eq_Inr by blast
  then have l4: "length nonceWord = 64" using pad_length by fastforce
  have d': "d = address (viemSigner p) @ rootWord @ after @ until
             @ (case paymaster (sessionKeyData p) of None \<Rightarrow> zeroAddress | Some a \<Rightarrow> a)
             @ nonceWord"
    using d by (simp add: concatHex_eq)
  have l5: "length d = 232" using d' l1 l2 l3 l4 assms(2,3) by simp
  show ?thesis
    using rw af un nw src d' l1 l2 l3 l4 l5 by blast
qed

theorem enable_data_layout_witness:
  "\<exists>d rootWord after until nonceWord.
      fst (getEnableData (demo_plugin [demo_filled] demo_tree1) demo_client (Some ''abcd'') None) = Inr d
      \<and> pad (getHexRoot (merkleTree (demo_plugin [demo_filled] demo_tree1))) 32 = Inr rootWord
      \<and> andThen (toHex_bigint 5) (\<lambda>h. pad h 32) = Inr nonceWord
      \<and> d = address (viemSigner (demo_plugin [demo_filled] demo_tree1)) @ rootWord @ after @ until
             @ replicate 40 CHR ''0'' @ nonceWord
      \<and> length after = 12 \<and> length until = 12 \<and> length d = 232"
proof -
  have ok: "fst (getEnableData (demo_plugin [demo_filled] demo_tree1) demo_client (Some ''abcd'') None) =
    Inr ''777777777777777777777777777777777777777711aaaa00000000000000000000000000000000000000000000000000000000000000000000000000000000ff00000000000000000000000000000000000000000000000000000000000000000000000000000000000000000000000000000005''"
    by code_simp
  have h1: "length (address (viemSigner (demo_plugin [demo_filled] demo_tree1))) = 40"
    by code_simp
  have h2: "length (case paymaster (sessionKeyData (demo_plugin [demo_filled] demo_tree1)) of
                      None \<Rightarrow> zeroAddress | Some a \<Rightarrow> a) = 40"
    by code_simp
  have pm: "(case paymaster (sessionKeyData (demo_plugin [demo_filled] demo_tree1)) of
                      None \<Rightarrow> zeroAddress | Some a \<Rightarrow> a) = replicate 40 CHR ''0''"
    by code_simp
  have nn: "nonces demo_client (validatorAddress (demo_plugin [demo_filled] demo_tree1)) a = Some (4, 0)" for a
    by (simp add: demo_client_def)
  from enable_data_layout [OF ok h1 h2] obtain rootWord after until nonceWord nonce where
    *: "pad (getHexRoot (merkleTree (demo_plugin [demo_filled] demo_tree1))) 32 = Inr rootWord"
       "andThen (toHex_bigint nonce) (\<lambda>h. pad h 32) = Inr nonceWord"
       "(None :: int option) = Some nonce
         \<or> ((None :: int option) = None \<and>
            (\<exists>a invalid. Some ''abcd'' = Some a
               \<and> nonces demo_client (validatorAddress (demo_plugin [demo_filled] demo_tree1)) a = Some (nonce - 1, invalid)))"
       "''777777777777777777777777777777777777777711aaaa00000000000000000000000000000000000000000000000000000000000000000000000000000000ff00000000000000000000000000000000000000000000000000000000000000000000000000000000000000000000000000000005''
         = address (viemSigner (demo_plugin [demo_filled] demo_tree1)) @ rootWord @ after @ until
             @ (case paymaster (sessionKeyData (demo_plugin [demo_filled] demo_tree1)) of None \<Rightarrow> zeroAddress | Some a \<Rightarrow> a)
             @ nonceWord"
       "length after = 12" "length until = 12"
       "length ''777777777777777777777777777777777777777711aaaa00000000000000000000000000000000000000000000000000000000000000000000000000000000ff00000000000000000000000000000000000000000000000000000000000000000000000000000000000000000000000000000005'' = 232"
    by blast
  from *(3) nn have n5: "nonce = 5" by auto
  have f1: "fst (getEnableData (demo_plugin [demo_filled] demo_tree1) demo_client (Some ''abcd'') None)
      = Inr (address (viemSigner (demo_plugin [demo_filled] demo_tree1)) @ rootWord @ after @ until
             @ replicate 40 CHR ''0'' @ nonceWord)"
    using ok *(4) pm by (simp only:)
  have f2: "andThen (toHex_bigint 5) (\<lambda>h. pad h 32) = Inr nonceWord"
    using *(2) n5 by (simp only:)
  have f3: "length (address (viemSigner (demo_plugin [demo_filled] demo_tree1)) @ rootWord @ after @ until
             @ replicate 40 CHR ''0'' @ nonceWord) = 232"
    using *(7) *(4) pm by (simp only:)
  show ?thesis
    using f1 *(1) f2 *(5) *(6) f3 by blast
qed

lemma getEnableData_pinned_trace:
  "snd (getEnableData p c (Some A) (Some N)) = []"
  by (simp add: getEnableData_def)

lemma getEnableData_no_account:
  "getEnableData p c None pinned = (Inl KernelAccountAddressNotProvided, [])"
  by (simp add: getEnableData_def)

lemma andThen_neq_config:
  "m \<noteq> Inl KernelAccountAddressNotProvided \<Longrightarrow> (\<And>v. f v \<noteq> Inl KernelAccountAddressNotProvided)
   \<Longrightarrow> andThen m f \<noteq> Inl KernelAccountAddressNotProvided"
  by (cases m) simp_all

lemma pad_neq_config: "pad h sz \<noteq> Inl KernelAccountAddressNotProvided"
  by (simp add: pad_def)

lemma toHex_number_neq_config: "toHex_number v \<noteq> Inl KernelAccountAddressNotProvided"
  by (simp add: toHex_number_def)

lemma toHex_bigint_neq_config: "toHex_bigint v \<noteq> Inl KernelAccountAddressNotProvided"
  by (simp add: toHex_bigint_def)

lemma getEnableData_account_error:
  "fst (getEnableData p c (Some A) pinned) \<noteq> Inl KernelAccountAddressNotProvided"
proof -
  have asm: "andThen (pad (getHexRoot (merkleTree p)) 32)
                  (\<lambda>rootWord.
                andThen
                  (andThen
                     (toHex_number
                        (case validAfter (sessionKeyData p) of None \<Rightarrow> 0 | Some v \<Rightarrow> v))
                     (\<lambda>h. pad h 6))
                  (\<lambda>after.
                andThen
                  (andThen
                     (toHex_number
                        (case validUntil (sessionKeyData p) of None \<Rightarrow> 0 | Some v \<Rightarrow> v))
                     (\<lambda>h. pad h 6))
                  (\<lambda>until.
                andThen (andThen (toHex_bigint nonce) (\<lambda>h. pad h 32))
                  (\<lambda>nonceWord.
                     Inr (concatHex
                            [address (viemSigner p), rootWord, after, until,
                             (case paymaster (sessionKeyData p) of
                                None \<Rightarrow> zeroAddress
                              | Some a \<Rightarrow> a),
                             nonceWord]))))) \<noteq> Inl KernelAccountAddressNotProvided" for nonce
    by (intro andThen_neq_config pad_neq_config toHex_number_neq_config toHex_bigint_neq_config) simp
  show ?thesis
  proof (cases pinned)
    case (Some n)
    then show ?thesis using asm by (simp add: getEnableData_def)
  next
    case None
    show ?thesis
    proof (cases "nonces c (validatorAddress p) A")
      case N: None
      then show ?thesis using None by (simp add: getEnableData_def getSessionNonces_None)
    next
      case (Some li)
      then obtain l i where "nonces c (validatorAddress p) A = Some (l, i)" by (cases li) auto
      then show ?thesis using None asm by (simp add: getEnableData_def getSessionNonces_Some)
    qed
  qed
qed

lemma getEnableData_pinned_ok:
  assumes "length (getHexRoot (merkleTree p)) \<le> 64"
    and "0 \<le> (case validAfter (sessionKeyData p) of None \<Rightarrow> 0 | Some v \<Rightarrow> v)"
    and "(case validAfter (sessionKeyData p) of None \<Rightarrow> 0 | Some v \<Rightarrow> v) < 2 ^ 48"
    and "0 \<le> (case validUntil (sessionKeyData p) of None \<Rightarrow> 0 | Some v \<Rightarrow> v)"
    and "(case validUntil (sessionKeyData p) of None \<Rightarrow> 0 | Some v \<Rightarrow> v) < 2 ^ 48"
    and "0 \<le> N" and "N < 2 ^ 256"
  shows "\<exists>d. fst (getEnableData p c (Some A) (Some N)) = Inr d"
proof -
  obtain rw where rw: "pad (getHexRoot (merkleTree p)) 32 = Inr rw"
    using assms(1) by (simp add: pad_def)
  obtain a where a: "andThen (toHex_number (case validAfter (sessionKeyData p) of None \<Rightarrow> 0 | Some v \<Rightarrow> v)) (\<lambda>h. pad h 6) = Inr a"
    using pad_toHex_number_ok [OF assms(2,3)] by blast
  obtain b where b: "andThen (toHex_number (case validUntil (sessionKeyData p) of None \<Rightarrow> 0 | Some v \<Rightarrow> v)) (\<lambda>h. pad h 6) = Inr b"
    using pad_toHex_number_ok [OF assms(4,5)] by blast
  have "N < 16 ^ (32 * 2)" using assms(7) by simp
  then obtain n where n: "andThen (toHex_bigint N) (\<lambda>h. pad h 32) = Inr n"
    using pad_toHex_bigint_ok [OF assms(6), of 32] by auto
  show ?thesis by (simp add: getEnableData_def rw a b n)
qed

text \<open>
  C4 (as amended). \<open>getEnableData\<close> of the session-key plugin fails with the
  configuration error "Kernel account address not provided" exactly when no account
  address is supplied, whether or not a nonce is pinned. With an account address and a
  pinned nonce \<open>N\<close> it performs no on-chain read, and it succeeds whenever the root fits
  32 bytes, the validity bounds fit 6 bytes each and \<open>N\<close> fits 32 bytes.
\<close>

theorem getEnableData_requires_account:
  "(fst (getEnableData p c account pinned) = Inl KernelAccountAddressNotProvided \<longleftrightarrow> account = None)
   \<and> snd (getEnableData p c (Some A) (Some N)) = []
   \<and> (length (getHexRoot (merkleTree p)) \<le> 64
      \<and> 0 \<le> (case validAfter (sessionKeyData p) of None \<Rightarrow> 0 | Some v \<Rightarrow> v)
      \<and> (case validAfter (sessionKeyData p) of None \<Rightarrow> 0 | Some v \<Rightarrow> v) < 2 ^ 48
      \<and> 0 \<le> (case validUntil (sessionKeyData p) of None \<Rightarrow> 0 | Some v \<Rightarrow> v)
      \<and> (case validUntil (sessionKeyData p) of None \<Rightarrow> 0 | Some v \<Rightarrow> v) < 2 ^ 48
      \<and> 0 \<le> N \<and> N < 2 ^ 256
      \<longrightarrow> (\<exists>d. fst (getEnableData p c (Some A) (Some N)) = Inr d))"
proof (intro conjI impI)
  show "fst (getEnableData p c account pinned) = Inl KernelAccountAddressNotProvided \<longleftrightarrow> account = None"
  proof (cases account)
    case None
    then show ?thesis by (simp add: getEnableData_no_account)
  next
    case (Some a)
    then show ?thesis using getEnableData_account_error [of p c a pinned] by simp
  qed
next
  show "snd (getEnableData p c (Some A) (Some N)) = []" by (rule getEnableData_pinned_trace)
next
  assume "length (getHexRoot (merkleTree p)) \<le> 64
      \<and> 0 \<le> (case validAfter (sessionKeyData p) of None \<Rightarrow> 0 | Some v \<Rightarrow> v)
      \<and> (case validAfter (sessionKeyData p) of None \<Rightarrow> 0 | Some v \<Rightarrow> v) < 2 ^ 48
      \<and> 0 \<le> (case validUntil (sessionKeyData p) of None \<Rightarrow> 0 | Some v \<Rightarrow> v)
      \<and> (case validUntil (sessionKeyData p) of None \<Rightarrow> 0 | Some v \<Rightarrow> v) < 2 ^ 48
      \<and> 0 \<le> N \<and> N < 2 ^ 256"
  then show "\<exists>d. fst (getEnableData p c (Some A) (Some N)) = Inr d"
    by (intro getEnableData_pinned_ok) simp_all
qed

theorem getEnableData_requires_account_witness:
  "fst (getEnableData (demo_plugin [demo_filled] demo_tree1) demo_client None (Some 5))
     = Inl KernelAccountAddressNotProvided
   \<and> snd (getEnableData (demo_plugin [demo_filled] demo_tree1) demo_client (Some ''abcd'') (Some 5)) = []
   \<and> (\<exists>d. fst (getEnableData (demo_plugin [demo_filled] demo_tree1) demo_client (Some ''abcd'') (Some 5))
          = Inr d)"
proof -
  have hyp: "length (getHexRoot (merkleTree (demo_plugin [demo_filled] demo_tree1))) \<le> 64
      \<and> 0 \<le> (case validAfter (sessionKeyData (demo_plugin [demo_filled] demo_tree1)) of None \<Rightarrow> 0 | Some v \<Rightarrow> v)
      \<and> (case validAfter (sessionKeyData (demo_plugin [demo_filled] demo_tree1)) of None \<Rightarrow> 0 | Some v \<Rightarrow> v) < 2 ^ 48
      \<and> 0 \<le> (case validUntil (sessionKeyData (demo_plugin [demo_filled] demo_tree1)) of None \<Rightarrow> 0 | Some v \<Rightarrow> v)
      \<and> (case validUntil (sessionKeyData (demo_plugin [demo_filled] demo_tree1)) of None \<Rightarrow> 0 | Some v \<Rightarrow> v) < 2 ^ 48
      \<and> (0::int) \<le> 5 \<and> (5::int) < 2 ^ 256"
    by code_simp
  from getEnableData_requires_account
         [of "demo_plugin [demo_filled] demo_tree1" demo_client None "Some 5" "''abcd''" 5] hyp
  show ?thesis by blast
qed

text \<open>
  C4 as stated fails: with a pinned nonce and no account address the guard on the
  account address throws before the nonce is looked at.
\<close>

theorem pinned_nonce_without_account_counterexample:
  "getEnableData (demo_plugin [demo_filled] demo_tree1) demo_client None (Some 5)
   = (Inl KernelAccountAddressNotProvided, [])"
  by (simp add: getEnableData_def)

section \<open>Enable data of the modular-permission plugin\<close>

lemma getNonces_Some:
  "nonces c (mp_validatorAddress m) a = Some (l, i) \<Longrightarrow>
   getNonces m c a =
     (Inr \<lparr>mp_lastNonce = l, revoked = i\<rparr>, [ReadContract (mp_validatorAddress m) ''nonces'' [a]])"
  by (simp add: getNonces_def)

lemma toString16_0: "toString16 0 = ''0''"
  by (simp add: toString16.simps hexDigit_def)

lemma pad_zero_16: "andThen (toHex_bigint 0) (\<lambda>h. pad h 16) = Inr (replicate 32 CHR ''0'')"
proof -
  have "replicate 32 CHR ''0'' = replicate 31 CHR ''0'' @ replicate 1 CHR ''0''"
    by (simp only: replicate_add [symmetric]) simp
  then have "replicate 31 CHR ''0'' @ ''0'' = replicate 32 CHR ''0''"
    by simp
  then show ?thesis
    by (simp add: toHex_bigint_def toString16_0 pad_def)
qed

lemma mp_getEnableData_no_account_trace:
  "snd (mp_getEnableData mu m c None) = []"
  by (simp add: mp_getEnableData_def)

lemma mp_getEnableData_no_account_ok:
  assumes "0 \<le> (case mp_validAfter m of None \<Rightarrow> 0 | Some v \<Rightarrow> v)"
    and "(case mp_validAfter m of None \<Rightarrow> 0 | Some v \<Rightarrow> v) < 2 ^ 48"
    and "0 \<le> (case mp_validUntil m of None \<Rightarrow> 0 | Some v \<Rightarrow> v)"
    and "(case mp_validUntil m of None \<Rightarrow> 0 | Some v \<Rightarrow> v) < 2 ^ 48"
    and "encodeAbiParameters mu
           [Bytes32Array (map getPolicyInfoInBytes (mp_policies m)),
            Bytes (getSignerData (mp_signer m)),
            BytesArray (map getPolicyData (mp_policies m))] = Some encoded"
  shows "\<exists>d. fst (mp_getEnableData mu m c None) = Inr d \<and> take 32 d = replicate 32 CHR ''0''"
proof -
  obtain a where a: "andThen (toHex_number (case mp_validAfter m of None \<Rightarrow> 0 | Some v \<Rightarrow> v)) (\<lambda>h. pad h 6) = Inr a"
    using pad_toHex_number_ok [OF assms(1,2)] by blast
  obtain b where b: "andThen (toHex_number (case mp_validUntil m of None \<Rightarrow> 0 | Some v \<Rightarrow> v)) (\<lambda>h. pad h 6) = Inr b"
    using pad_toHex_number_ok [OF assms(3,4)] by blast
  show ?thesis
    by (simp add: mp_getEnableData_def pad_zero_16 a b assms(5) concatHex_eq)
qed

lemma mp_getEnableData_account:
  assumes "nonces c (mp_validatorAddress m) A = Some (l, r)"
    and "fst (mp_getEnableData mu m c (Some A)) = Inr d"
  shows "andThen (toHex_bigint (l + 1)) (\<lambda>h. pad h 16) = Inr (take 32 d)
         \<and> snd (mp_getEnableData mu m c (Some A)) = [ReadContract (mp_validatorAddress m) ''nonces'' [A]]"
proof -
  from assms obtain nw where nw: "andThen (toHex_bigint (l + 1)) (\<lambda>h. pad h 16) = Inr nw"
    by (cases "andThen (toHex_bigint (l + 1)) (\<lambda>h. pad h 16)")
       (simp_all add: mp_getEnableData_def getNonces_Some)
  then obtain h where "pad h 16 = Inr nw" unfolding andThen_eq_Inr by blast
  then have len: "length nw = 32" using pad_length by fastforce
  from assms nw have "\<exists>rest. d = nw @ rest"
    by (auto simp: mp_getEnableData_def getNonces_Some concatHex_eq andThen_eq_Inr)
  with len have "take 32 d = nw" by auto
  with nw assms(1) show ?thesis by (simp add: mp_getEnableData_def getNonces_Some)
qed

text \<open>
  C10. In the modular-permission plugin, \<open>getEnableData\<close> called without an account
  address performs no on-chain read and does not fail for want of the address: when
  the validity bounds fit 6 bytes each and the ABI codec encodes the policies, it
  returns a payload whose leading 16-byte nonce field is zero. For every supplied
  account address whose \<open>nonces\<close> read reports the last nonce \<open>l\<close>, a returned payload
  has \<open>l + 1\<close>, padded to 16 bytes, as its leading field, and that read is the only one.
\<close>

theorem mp_getEnableData_nonce_field:
  "snd (mp_getEnableData mu m c None) = []
   \<and> (0 \<le> (case mp_validAfter m of None \<Rightarrow> 0 | Some v \<Rightarrow> v)
      \<and> (case mp_validAfter m of None \<Rightarrow> 0 | Some v \<Rightarrow> v) < 2 ^ 48
      \<and> 0 \<le> (case mp_validUntil m of None \<Rightarrow> 0 | Some v \<Rightarrow> v)
      \<and> (case mp_validUntil m of None \<Rightarrow> 0 | Some v \<Rightarrow> v) < 2 ^ 48
      \<and> (\<exists>encoded. encodeAbiParameters mu
            [Bytes32Array (map getPolicyInfoInBytes (mp_policies m)),
             Bytes (getSignerData (mp_signer m)),
             BytesArray (map getPolicyData (mp_policies m))] = Some encoded)
      \<longrightarrow> (\<exists>d. fst (mp_getEnableData mu m c None) = Inr d
                \<and> take 32 d = replicate 32 CHR ''0''))
   \<and> (nonces c (mp_validatorAddress m) A = Some (l, r)
      \<and> fst (mp_getEnableData mu m c (Some A)) = Inr d
      \<longrightarrow> andThen (toHex_bigint (l + 1)) (\<lambda>h. pad h 16) = Inr (take 32 d)
          \<and> snd (mp_getEnableData mu m c (Some A))
              = [ReadContract (mp_validatorAddress m) ''nonces'' [A]])"
proof (intro conjI impI)
  show "snd (mp_getEnableData mu m c None) = []"
    by (rule mp_getEnableData_no_account_trace)
  show "\<exists>d. fst (mp_getEnableData mu m c None) = Inr d \<and> take 32 d = replicate 32 CHR ''0''"
    if "0 \<le> (case mp_validAfter m of None \<Rightarrow> 0 | Some v \<Rightarrow> v)
      \<and> (case mp_validAfter m of None \<Rightarrow> 0 | Some v \<Rightarrow> v) < 2 ^ 48
      \<and> 0 \<le> (case mp_validUntil m of None \<Rightarrow> 0 | Some v \<Rightarrow> v)
      \<and> (case mp_validUntil m of None \<Rightarrow> 0 | Some v \<Rightarrow> v) < 2 ^ 48
      \<and> (\<exists>encoded. encodeAbiParameters mu
            [Bytes32Array (map getPolicyInfoInBytes (mp_policies m)),
             Bytes (getSignerData (mp_signer m)),
             BytesArray (map getPolicyData (mp_policies m))] = Some encoded)"
    using that mp_getEnableData_no_account_ok [of m mu _ c] by blast
  show "andThen (toHex_bigint (l + 1)) (\<lambda>h. pad h 16) = Inr (take 32 d)"
    if "nonces c (mp_validatorAddress m) A = Some (l, r)
      \<and> fst (mp_getEnableData mu m c (Some A)) = Inr d"
    using that mp_getEnableData_account by blast
  show "snd (mp_getEnableData mu m c (Some A)) = [ReadContract (mp_validatorAddress m) ''nonces'' [A]]"
    if "nonces c (mp_validatorAddress m) A = Some (l, r)
      \<and> fst (mp_getEnableData mu m c (Some A)) = Inr d"
    using that mp_getEnableData_account by blast
qed

theorem mp_getEnableData_nonce_field_witness:
  "snd (mp_getEnableData demo_modular_utils demo_modular_plugin demo_client None) = []
   \<and> (\<exists>d. fst (mp_getEnableData demo_modular_utils demo_modular_plugin demo_client None) = Inr d
          \<and> take 32 d = replicate 32 CHR ''0'')
   \<and> nonces demo_client (mp_validatorAddress demo_modular_plugin) ''abcd'' = Some (4, 0)
   \<and> (\<exists>d. fst (mp_getEnableData demo_modular_utils demo_modular_plugin demo_client (Some ''abcd'')) = Inr d
          \<and> andThen (toHex_bigint (4 + 1)) (\<lambda>h. pad h 16) = Inr (take 32 d))"
proof -
  have hyp: "0 \<le> (case mp_validAfter demo_modular_plugin of None \<Rightarrow> 0 | Some v \<Rightarrow> v)
      \<and> (case mp_validAfter demo_modular_plugin of None \<Rightarrow> 0 | Some v \<Rightarrow> v) < 2 ^ 48
      \<and> 0 \<le> (case mp_validUntil demo_modular_plugin of None \<Rightarrow> 0 | Some v \<Rightarrow> v)
      \<and> (case mp_validUntil demo_modular_plugin of None \<Rightarrow> 0 | Some v \<Rightarrow> v) < 2 ^ 48"
    by code_simp
  have enc: "encodeAbiParameters demo_modular_utils
            [Bytes32Array (map getPolicyInfoInBytes (mp_policies demo_modular_plugin)),
             Bytes (getSignerData (mp_signer demo_modular_plugin)),
             BytesArray (map getPolicyData (mp_policies demo_modular_plugin))]
        = Some ''99999999999999999999999999999999999999999999999999999999999999991234ab''"
    by code_simp
  have n: "nonces demo_client (mp_validatorAddress demo_modular_plugin) ''abcd'' = Some (4, 0)"
    by code_simp
  have ok: "fst (mp_getEnableData demo_modular_utils demo_modular_plugin demo_client (Some ''abcd''))
     = Inr ''00000000000000000000000000000005ffff0000000000000000000000ff888888888888888888888888888888888888888899999999999999999999999999999999999999999999999999999999999999991234ab''"
    by code_simp
  note T = mp_getEnableData_nonce_field
         [of demo_modular_utils demo_modular_plugin demo_client "''abcd''" 4 0
             "''00000000000000000000000000000005ffff0000000000000000000000ff888888888888888888888888888888888888888899999999999999999999999999999999999999999999999999999999999999991234ab''"]
  from T have a: "snd (mp_getEnableData demo_modular_utils demo_modular_plugin demo_client None) = []"
    by blast
  from T hyp enc
  have b: "\<exists>d. fst (mp_getEnableData demo_modular_utils demo_modular_plugin demo_client None) = Inr d
          \<and> take 32 d = replicate 32 CHR ''0''"
    by blast
  from T n ok
  have c: "andThen (toHex_bigint (4 + 1)) (\<lambda>h. pad h 16)
      = Inr (take 32 ''00000000000000000000000000000005ffff0000000000000000000000ff888888888888888888888888888888888888888899999999999999999999999999999999999999999999999999999999999999991234ab'')"
    by blast
  from ok c have c': "\<exists>d. fst (mp_getEnableData demo_modular_utils demo_modular_plugin demo_client (Some ''abcd'')) = Inr d
          \<and> andThen (toHex_bigint (4 + 1)) (\<lambda>h. pad h 16) = Inr (take 32 d)"
    by blast
  from a b n c' show ?thesis by blast
qed

section \<open>The enabled check\<close>












text \<open>
  C9. In the session-key plugin, \<open>isEnabled\<close> returns true only if the stored session
  nonce is not zero: for every account whose stored \<open>sessionData\<close> has nonce 0 it
  returns false, whatever the validator address and the other stored fields are (in
  the concrete case below they all match, and the same state with nonce 1 is enabled).
\<close>

theorem isEnabled_zero_nonce:
  assumes "sessionData c (validatorAddress p) (address (signer p)) A = Some (r, va, vu, pm, 0)"
  shows "fst (isEnabled p c A sel) = Inr False"
proof (cases "getExecution c A sel")
  case None
  then show ?thesis by (simp add: isEnabled_def)
next
  case (Some ed)
  show ?thesis
  proof (cases "enableDataHex p (r, va, vu, pm, 0)")
    case (Inl e)
    with Some assms show ?thesis by (simp add: isEnabled_def)
  next
    case (Inr stored)
    with Some assms show ?thesis by (simp add: isEnabled_def)
  qed
qed

theorem isEnabled_zero_nonce_witness:
  "sessionData (demo_client_stored 0) (validatorAddress (demo_plugin [demo_filled] demo_tree1))
     (address (signer (demo_plugin [demo_filled] demo_tree1))) ''abcd''
   = Some (getHexRoot (merkleTree (demo_plugin [demo_filled] demo_tree1)), 0, 255, replicate 40 CHR ''0'', 0)
   \<and> fst (isEnabled (demo_plugin [demo_filled] demo_tree1) (demo_client_stored 0) ''abcd'' ''11223344'') = Inr False
   \<and> fst (isEnabled (demo_plugin [demo_filled] demo_tree1) (demo_client_stored 1) ''abcd'' ''11223344'') = Inr True"
proof -
  have h: "sessionData (demo_client_stored 0) (validatorAddress (demo_plugin [demo_filled] demo_tree1))
     (address (signer (demo_plugin [demo_filled] demo_tree1))) ''abcd''
   = Some (getHexRoot (merkleTree (demo_plugin [demo_filled] demo_tree1)), 0, 255, replicate 40 CHR ''0'', 0)"
    by code_simp
  have t: "fst (isEnabled (demo_plugin [demo_filled] demo_tree1) (demo_client_stored 1) ''abcd'' ''11223344'') = Inr True"
    by code_simp
  show ?thesis
    by (intro conjI) (rule h, rule isEnabled_zero_nonce [OF h], rule t)
qed

end
